theory Spec2Isabelle
  imports Main "HOL-Library.AList" "HOL-Library.Sublist"
begin

section \<open>Python values as far as the registry looks at them\<close>

text \<open>
  The embedding follows \<^verbatim>\<open>black_orchid.py\<close>, class \<^verbatim>\<open>ProxyHandler\<close>.
  Identifiers, module names and registry keys are \<open>string\<close>s (ASCII). A raised
  exception is a value: its class name and its message (\<^verbatim>\<open>str(e)\<close>).
\<close>

datatype exn = Exn (exn_class: string) (exn_msg: string)

text \<open>
  An object bound to a top-level name of a module. The registry stores the object
  itself (by reference: \<open>obj_id\<close>), reads its \<^verbatim>\<open>__doc__\<close> and, much later, calls
  it. \<open>obj_callable\<close> is what \<^verbatim>\<open>callable(obj)\<close> would answer; the source never asks.
\<close>

datatype pyobj = PyObj (obj_id: nat) (obj_doc: "string option") (obj_callable: bool)

text \<open>
  The attribute table of a module object: one row per name, in the order \<^verbatim>\<open>dir(tmod)\<close>
  lists the names, each with \<^verbatim>\<open>getattr(tmod, name)\<close>.
\<close>

type_synonym namespace = "(string \<times> pyobj) list"

subsection \<open>String tests of the extraction filter\<close>

text \<open>\<^verbatim>\<open>sub in s\<close> on strings: \<open>sub\<close> occurs as a contiguous run of \<open>s\<close>.\<close>

fun py_in :: "string \<Rightarrow> string \<Rightarrow> bool" where
  "py_in sub [] = (sub = [])"
| "py_in sub (c # cs) = (prefix sub (c # cs) \<or> py_in sub cs)"

definition is_upper :: "char \<Rightarrow> bool" where
  "is_upper c = (c \<in> set ''ABCDEFGHIJKLMNOPQRSTUVWXYZ'')"

definition is_lower :: "char \<Rightarrow> bool" where
  "is_lower c = (c \<in> set ''abcdefghijklmnopqrstuvwxyz'')"

text \<open>
  \<^verbatim>\<open>str.islower()\<close>: at least one cased character, and no cased character is
  upper case. Digits and underscores are not cased.
\<close>

definition islower :: "string \<Rightarrow> bool" where
  "islower x = (list_ex is_lower x \<and> \<not> list_ex is_upper x)"

definition startswith :: "string \<Rightarrow> string \<Rightarrow> bool" where
  "startswith x p = prefix p x"

subsection \<open>Paths\<close>

text \<open>
  A path is the list of its components from the root. \<^verbatim>\<open>Path.is_relative_to\<close>
  compares components; \<^verbatim>\<open>Path.stem\<close> is the last component without its last
  suffix (the dot must be neither the first nor the last character of the name).
\<close>

type_synonym path = "string list"

definition is_relative_to :: "path \<Rightarrow> path \<Rightarrow> bool" where
  "is_relative_to p d = prefix d p"

definition path_name :: "path \<Rightarrow> string" where
  "path_name p = (case rev p of [] \<Rightarrow> [] | n # _ \<Rightarrow> n)"

definition stem_of_name :: "string \<Rightarrow> string" where
  "stem_of_name n =
     (if CHR ''.'' \<notin> set n then n
      else let ext = takeWhile (\<lambda>c. c \<noteq> CHR ''.'') (rev n);
               i = length n - length ext - 1
           in if 0 < i \<and> ext \<noteq> [] then take i n else n)"

definition stem :: "path \<Rightarrow> string" where
  "stem p = stem_of_name (path_name p)"

section \<open>The handler's state\<close>

text \<open>One registry row (the dict stored under a tool name).\<close>

record tool_entry =
  func :: pyobj
  docstring :: "string option"
  source_module :: string
  original_name :: string
  had_collision :: bool

text \<open>
  A history of the name tracker is a list that the source creates with one pair and only
  ever appends to, and whose element 0 it reads: the first pair and the later ones.
\<close>

type_synonym history = "(string \<times> string) \<times> (string \<times> string) list"

text \<open>
  The fields of \<^verbatim>\<open>ProxyHandler\<close>. Dicts are association lists in insertion order,
  written with \<open>AList.update\<close> (an existing key keeps its place, a new key goes to the
  end) and \<open>AList.delete\<close>. \<open>sys_modules\<close> is the key set of the interpreter's
  \<^verbatim>\<open>sys.modules\<close>, which the loader writes and the full reload reads.
\<close>

record handler =
  valid_dirs :: "path list"
  registry :: "(string \<times> tool_entry) list"
  name_tracker :: "(string \<times> history) list"
  rejected_modules :: "(path \<times> string) list"
  raw_modules :: "path list"
  okmods :: "path list"
  loaded_mods :: "(string \<times> namespace) list"
  sys_modules :: "string set"

section \<open>Registration with collision detection\<close>

definition new_entry :: "pyobj \<Rightarrow> string \<Rightarrow> string \<Rightarrow> bool \<Rightarrow> tool_entry" where
  "new_entry f module_name original coll =
     \<lparr>func = f, docstring = obj_doc f, source_module = module_name,
      original_name = original, had_collision = coll\<rparr>"

text \<open>
  The retroactive rename of the first occurrence (lines 127 to 137): only when the first
  pair still carries the bare name and the bare key is still in the registry. The row is
  popped and stored again under the suffixed key, flagged.
\<close>

definition rename_first :: "string \<Rightarrow> history \<Rightarrow> handler \<Rightarrow> history \<times> handler" where
  "rename_first original hist s =
     (case hist of ((first_module, first_tool_name), later) \<Rightarrow>
        (case (if first_tool_name = original then map_of (registry s) original else None) of
           None \<Rightarrow> (hist, s)
         | Some e \<Rightarrow>
             (let new_first_name = original @ ''_'' @ first_module
              in (((first_module, new_first_name), later),
                  s\<lparr>registry :=
                      AList.update new_first_name (e\<lparr>had_collision := True\<rparr>)
                        (AList.delete original (registry s)),
                    name_tracker :=
                      AList.update original ((first_module, new_first_name), later)
                        (name_tracker s)\<rparr>))))"

text \<open>
  \<^verbatim>\<open>_register_tool\<close> (lines 116 to 160). A name the tracker knows is a collision:
  the first occurrence is renamed if it can be, and the new callable is stored under
  \<^verbatim>\<open>f"{original_name}_{module_name}"\<close> and appended to the history. A name the
  tracker does not know is stored under itself.
\<close>

definition register_tool :: "string \<Rightarrow> string \<Rightarrow> pyobj \<Rightarrow> handler \<Rightarrow> handler" where
  "register_tool original module_name f s =
     (case map_of (name_tracker s) original of
        Some hist \<Rightarrow>
          (case rename_first original hist s of (hist1, s1) \<Rightarrow>
             (let new_tool_name = original @ ''_'' @ module_name
              in s1\<lparr>registry :=
                       AList.update new_tool_name (new_entry f module_name original True)
                         (registry s1),
                     name_tracker :=
                       AList.update original
                         (fst hist1, snd hist1 @ [(module_name, new_tool_name)])
                         (name_tracker s1)\<rparr>))
      | None \<Rightarrow>
          s\<lparr>registry :=
              AList.update original (new_entry f module_name original False) (registry s),
            name_tracker :=
              AList.update original ((module_name, original), []) (name_tracker s)\<rparr>)"

text \<open>The loop \<^verbatim>\<open>for fn_name in clean_list: self._register_tool(...)\<close>.\<close>

definition register_all :: "string \<Rightarrow> namespace \<Rightarrow> handler \<Rightarrow> handler" where
  "register_all module_name rows s =
     foldl (\<lambda>t (fn_name, f). register_tool fn_name module_name f t) s rows"

text \<open>A sequence of calls of \<^verbatim>\<open>_register_tool\<close>, in order.\<close>

definition register_calls :: "(string \<times> string \<times> pyobj) list \<Rightarrow> handler \<Rightarrow> handler" where
  "register_calls calls s =
     foldl (\<lambda>t (original, module_name, f). register_tool original module_name f t) s calls"

section \<open>The world outside the handler\<close>

text \<open>
  What the file system and the import machinery answer during one operation:
  \<^item> \<open>glob_py d\<close>: \<^verbatim>\<open>glob.glob(str(d / "*.py"))\<close>;
  \<^item> \<open>resolve p\<close>: \<^verbatim>\<open>Path(p).resolve()\<close>; \<open>path_exists p\<close>: \<^verbatim>\<open>p.exists()\<close>;
  \<^item> \<open>check_source p\<close>: opening, reading and \<^verbatim>\<open>ast.parse\<close> of the file;
  \<^item> \<open>has_spec n p\<close>: \<^verbatim>\<open>spec_from_file_location(n, p)\<close> gives a spec with a loader;
  \<^item> \<open>exec_module n p\<close>: executing the file in a fresh module object: the exception
    raised, or the module's attribute table;
  \<^item> \<open>exec_module_in n p old\<close>: executing the file inside the module object already
    loaded, whose table is \<open>old\<close>: the table afterwards, or how the execution broke
    off;
  \<^item> \<open>importlib_reload n\<close>: \<^verbatim>\<open>importlib.reload(sys.modules[n])\<close>, which looks the
    name up in the import path and executes what it finds inside the module object of
    \<^verbatim>\<open>sys.modules\<close>: the exception raised, or the file it executed and the module's
    table afterwards.
  The exceptions of the batch loops are instances of \<^verbatim>\<open>Exception\<close>.
\<close>

text \<open>
  An execution inside a loaded module object that raises: the exception, whether it is an
  instance of \<^verbatim>\<open>Exception\<close> (\<^verbatim>\<open>SystemExit\<close> and \<^verbatim>\<open>KeyboardInterrupt\<close> are
  not), and the table the module object is left with: the statements that ran before the
  raise have made their bindings in it.
\<close>

datatype interrupted =
  Interrupted (raised: exn) (is_exception_instance: bool) (left_table: namespace)

datatype source_check = Parsed | SyntaxError | ReadError exn

record world =
  glob_py :: "path \<Rightarrow> path list"
  resolve :: "path \<Rightarrow> path"
  path_exists :: "path \<Rightarrow> bool"
  check_source :: "path \<Rightarrow> source_check"
  has_spec :: "string \<Rightarrow> path \<Rightarrow> bool"
  exec_module :: "string \<Rightarrow> path \<Rightarrow> exn + namespace"
  exec_module_in :: "string \<Rightarrow> path \<Rightarrow> namespace \<Rightarrow> interrupted + namespace"
  importlib_reload :: "string \<Rightarrow> exn + path \<times> namespace"

section \<open>Discovery and validation\<close>

text \<open>
  The body of the loop \<^verbatim>\<open>for mod in self.raw_modules\<close> (lines 56 to 79, and again
  190 to 213 with the same text): the resolved path must lie under a valid directory,
  the stem \<^verbatim>\<open>toolset\<close> is passed over, and the source must read and parse.
\<close>

definition validate_one :: "world \<Rightarrow> handler \<Rightarrow> path \<Rightarrow> handler" where
  "validate_one w s m =
     (let mod_path = resolve w m;
          is_valid_path = list_ex (\<lambda>valid_dir. is_relative_to mod_path valid_dir) (valid_dirs s)
      in if \<not> is_valid_path
         then s\<lparr>rejected_modules := rejected_modules s @ [(m, ''path_traversal_attempt'')]\<rparr>
         else if stem mod_path = ''toolset'' then s
         else (case check_source w mod_path of
                 Parsed \<Rightarrow> s\<lparr>okmods := okmods s @ [mod_path]\<rparr>
               | SyntaxError \<Rightarrow>
                   s\<lparr>rejected_modules := rejected_modules s @ [(m, ''syntax_error'')]\<rparr>
               | ReadError e \<Rightarrow>
                   s\<lparr>rejected_modules :=
                       rejected_modules s @ [(m, ''read_error: '' @ exn_msg e)]\<rparr>))"

text \<open>
  Discovery: the glob over every valid directory, then the validation loop over the
  candidates, starting from an empty \<^verbatim>\<open>okmods\<close>.
\<close>

definition discover :: "world \<Rightarrow> handler \<Rightarrow> handler" where
  "discover w s =
     (let raw = concat (map (glob_py w) (valid_dirs s))
      in foldl (validate_one w) (s\<lparr>raw_modules := raw, okmods := []\<rparr>) raw)"

section \<open>Loading\<close>

text \<open>
  The extraction filter of the two batch loops (lines 99 and 244), and the one of the
  partial reload (line 300), which has no \<^verbatim>\<open>startswith\<close> test. Each keeps the row,
  the name with the object \<^verbatim>\<open>getattr\<close> returns for it.
\<close>

definition clean_list :: "namespace \<Rightarrow> namespace" where
  "clean_list tmod =
     filter (\<lambda>(x, f). \<not> py_in ''__'' x \<and> islower x \<and> \<not> startswith x ''_'') tmod"

definition clean_list_reload :: "namespace \<Rightarrow> namespace" where
  "clean_list_reload tmod = filter (\<lambda>(x, f). \<not> py_in ''__'' x \<and> islower x) tmod"

text \<open>What obtaining a module object for a candidate ends in.\<close>

datatype loaded = No_spec | Raised exn | Module namespace

text \<open>
  A fresh import (lines 88 to 94, 226 to 231 and 233 to 238): no spec means
  \<^verbatim>\<open>continue\<close>; otherwise the new module object is entered in \<^verbatim>\<open>sys.modules\<close>
  and executed.
\<close>

definition fresh_import :: "world \<Rightarrow> string \<Rightarrow> path \<Rightarrow> handler \<Rightarrow> loaded \<times> handler" where
  "fresh_import w mod_name mod_path s =
     (if \<not> has_spec w mod_name mod_path then (No_spec, s)
      else (case exec_module w mod_name mod_path of
              Inl e \<Rightarrow> (Raised e, s\<lparr>sys_modules := insert mod_name (sys_modules s)\<rparr>)
            | Inr tmod \<Rightarrow> (Module tmod, s\<lparr>sys_modules := insert mod_name (sys_modules s)\<rparr>)))"

text \<open>
  Lines 95 to 107 and 240 to 250: the module is entered in \<^verbatim>\<open>loaded_mods\<close> and its
  clean names are registered.
\<close>

definition store_module :: "string \<Rightarrow> namespace \<Rightarrow> handler \<Rightarrow> handler" where
  "store_module mod_name tmod s =
     register_all mod_name (clean_list tmod)
       (s\<lparr>loaded_mods := AList.update mod_name tmod (loaded_mods s)\<rparr>)"

text \<open>
  One round of the startup loop (lines 83 to 114). The \<^verbatim>\<open>try\<close> covers the whole
  round: an exception becomes a row of \<^verbatim>\<open>rejected_modules\<close> and the loop goes on.
\<close>

definition load_one_init :: "world \<Rightarrow> handler \<Rightarrow> path \<Rightarrow> handler" where
  "load_one_init w s mod_path =
     (let mod_name = stem mod_path
      in case fresh_import w mod_name mod_path s of
           (No_spec, s1) \<Rightarrow> s1
         | (Raised e, s1) \<Rightarrow>
             s1\<lparr>rejected_modules :=
                  rejected_modules s1 @ [(mod_path, ''import_error: '' @ exn_msg e)]\<rparr>
         | (Module tmod, s1) \<Rightarrow> store_module mod_name tmod s1)"

text \<open>
  \<^verbatim>\<open>ProxyHandler.__init__\<close>. \<open>base_dir\<close> is the resolved directory of the script and
  \<open>sysmods\<close> the names in \<^verbatim>\<open>sys.modules\<close> when the handler is built. First the
  fields as lines 30 to 53 set them (the private directory counts only if it exists),
  then discovery and the load loop.
\<close>

definition initial_state :: "world \<Rightarrow> path \<Rightarrow> string set \<Rightarrow> handler" where
  "initial_state w base_dir sysmods =
     (let modules_dir = base_dir @ [''modules''];
          private_modules_dir = base_dir @ [''private'', ''modules'']
      in \<lparr>valid_dirs = [resolve w modules_dir] @
                         (if path_exists w private_modules_dir
                          then [resolve w private_modules_dir] else []),
          registry = [], name_tracker = [], rejected_modules = [], raw_modules = [],
          okmods = [], loaded_mods = [], sys_modules = sysmods\<rparr>)"

definition proxy_handler_init :: "world \<Rightarrow> path \<Rightarrow> string set \<Rightarrow> handler" where
  "proxy_handler_init w base_dir sysmods =
     (let s1 = discover w (initial_state w base_dir sysmods)
      in foldl (load_one_init w) s1 (okmods s1))"

section \<open>Dispatch and listing\<close>

text \<open>
  \<^verbatim>\<open>use_proxy_tool\<close>. The handler's own \<^verbatim>\<open>KeyError\<close> carries the tool id and
  \<^verbatim>\<open>list(self.registry.keys())\<close>, which the source renders into its message. An
  exception of the callable passes through as it is. \<open>call\<close> is Python's call of an
  object with keyword arguments.
\<close>

datatype dispatch_error = Not_found string "string list" | Tool_raised exn

definition use_proxy_tool ::
  "(pyobj \<Rightarrow> (string \<times> 'a) list \<Rightarrow> exn + 'b) \<Rightarrow> handler \<Rightarrow> string \<Rightarrow> (string \<times> 'a) list
     \<Rightarrow> (dispatch_error + 'b) \<times> handler" where
  "use_proxy_tool call s tool_id kwargs =
     (case map_of (registry s) tool_id of
        None \<Rightarrow> (Inl (Not_found tool_id (map fst (registry s))), s)
      | Some info \<Rightarrow>
          (case call (func info) kwargs of
             Inl e \<Rightarrow> (Inl (Tool_raised e), s)
           | Inr r \<Rightarrow> (Inr r, s)))"

definition list_tools :: "handler \<Rightarrow> (string \<times> string option) list" where
  "list_tools s = map (\<lambda>(name, info). (name, docstring info)) (registry s)"

section \<open>Full reload\<close>

text \<open>
  One round of the load loop of \<^verbatim>\<open>reload_all_modules\<close> (lines 216 to 250). A name
  in \<^verbatim>\<open>sys.modules\<close> is reloaded, and imported afresh if the reload raises. The
  reload is by name: the loop takes the module it returns and never looks at the file it
  came from, nor passes \<open>mod_path\<close> to it. Nothing catches an exception of the fresh
  import: it leaves the loop and the method.
\<close>

definition obtain_module :: "world \<Rightarrow> string \<Rightarrow> path \<Rightarrow> handler \<Rightarrow> loaded \<times> handler" where
  "obtain_module w mod_name mod_path s =
     (if mod_name \<in> sys_modules s
      then (case importlib_reload w mod_name of
              Inr (origin, tmod) \<Rightarrow> (Module tmod, s)
            | Inl e \<Rightarrow> fresh_import w mod_name mod_path s)
      else fresh_import w mod_name mod_path s)"

definition load_one_reload :: "world \<Rightarrow> handler \<Rightarrow> path \<Rightarrow> exn option \<times> handler" where
  "load_one_reload w s mod_path =
     (let mod_name = stem mod_path
      in case obtain_module w mod_name mod_path s of
           (No_spec, s1) \<Rightarrow> (None, s1)
         | (Raised e, s1) \<Rightarrow> (Some e, s1)
         | (Module tmod, s1) \<Rightarrow> (None, store_module mod_name tmod s1))"

fun load_all_reload :: "world \<Rightarrow> path list \<Rightarrow> handler \<Rightarrow> exn option \<times> handler" where
  "load_all_reload w [] s = (None, s)"
| "load_all_reload w (mod_path # rest) s =
     (case load_one_reload w s mod_path of
        (Some e, s1) \<Rightarrow> (Some e, s1)
      | (None, s1) \<Rightarrow> load_all_reload w rest s1)"

text \<open>
  \<^verbatim>\<open>reload_all_modules\<close>: the four clears, discovery, the load loop, and the summary
  (the two counts of the returned sentence). \<open>Inl e\<close> is the exception that left the
  method, with the state it left behind.
\<close>

definition clear_state :: "handler \<Rightarrow> handler" where
  "clear_state s =
     s\<lparr>registry := [], name_tracker := [], loaded_mods := [], rejected_modules := []\<rparr>"

definition reload_all_modules :: "world \<Rightarrow> handler \<Rightarrow> (exn + nat \<times> nat) \<times> handler" where
  "reload_all_modules w s =
     (let s1 = discover w (clear_state s)
      in case load_all_reload w (okmods s1) s1 of
           (Some e, s2) \<Rightarrow> (Inl e, s2)
         | (None, s2) \<Rightarrow> (Inr (length (registry s2), length (loaded_mods s2)), s2))"

section \<open>Partial reload\<close>

text \<open>
  What a call of \<^verbatim>\<open>reload_module\<close> ends in. The returned dict is the success report,
  or the failure with its \<^verbatim>\<open>error\<close> sentence and, when the reload was attempted,
  the exception behind the \<^verbatim>\<open>traceback\<close> text and the \<^verbatim>\<open>note\<close>. An exception
  that \<^verbatim>\<open>except Exception\<close> (line 332) does not catch leaves the method: no dict is
  returned.
\<close>

datatype reload_result =
    Reload_ok (reloaded: string) (tools_added: "string set") (tools_removed: "string set")
      (suggestion: "string option")
  | Reload_failed (error_text: string) (traceback: "exn option") (note_text: "string option")
  | Reload_escaped (escaped: exn)

definition find_module_file :: "world \<Rightarrow> path list \<Rightarrow> string \<Rightarrow> path option" where
  "find_module_file w dirs module_name =
     List.find (path_exists w) (map (\<lambda>valid_dir. valid_dir @ [module_name @ ''.py'']) dirs)"

definition tools_of :: "string \<Rightarrow> (string \<times> tool_entry) list \<Rightarrow> string set" where
  "tools_of module_name reg =
     set (map fst (filter (\<lambda>(tool_id, info). source_module info = module_name) reg))"

text \<open>
  The \<^verbatim>\<open>try\<close> body up to the re-execution (lines 276 to 292). The two exceptions the
  handler raises itself come before the execution and leave the module as it is. The
  execution (line 292) runs inside the loaded module object: it ends with the module's
  new table, or breaks off as \<open>exec_module_in\<close> says.
\<close>

definition reexecute :: "world \<Rightarrow> handler \<Rightarrow> string \<Rightarrow> namespace \<Rightarrow> interrupted + namespace" where
  "reexecute w s module_name old =
     (case find_module_file w (valid_dirs s) module_name of
        None \<Rightarrow>
          Inl (Interrupted
                 (Exn ''FileNotFoundError''
                    (''Module file for '' @ [CHR 0x27] @ module_name @ [CHR 0x27] @ '' not found''))
                 True old)
      | Some mod_path \<Rightarrow>
          (if \<not> has_spec w module_name mod_path
           then Inl (Interrupted
                       (Exn ''ImportError''
                          (''Could not create spec for '' @ [CHR 0x27] @ module_name @ [CHR 0x27]))
                       True old)
           else exec_module_in w module_name mod_path old))"

text \<open>
  \<^verbatim>\<open>reload_module\<close>. When the \<^verbatim>\<open>try\<close> body breaks off, no field of the handler has
  been assigned; the module object under \<open>module_name\<close> is the same object, with the
  table the broken execution left in it. An instance of \<^verbatim>\<open>Exception\<close> is caught and
  the failure dict returned; any other exception leaves the method.
\<close>

definition reload_module :: "world \<Rightarrow> handler \<Rightarrow> string \<Rightarrow> reload_result \<times> handler" where
  "reload_module w s module_name =
     (case map_of (loaded_mods s) module_name of
        None \<Rightarrow>
          (Reload_failed
             (''Module '' @ [CHR 0x27] @ module_name @ [CHR 0x27] @ '' not currently loaded'')
             None None, s)
      | Some old \<Rightarrow>
          (let old_tool_names = tools_of module_name (registry s)
           in case reexecute w s module_name old of
                Inl (Interrupted e caught left) \<Rightarrow>
                  (let s1 = s\<lparr>loaded_mods := AList.update module_name left (loaded_mods s)\<rparr>
                   in if caught
                      then (Reload_failed
                              (''Failed to reload '' @ [CHR 0x27] @ module_name @ [CHR 0x27])
                              (Some e) (Some ''Old version of module is still loaded''), s1)
                      else (Reload_escaped e, s1))
              | Inr reloaded_module \<Rightarrow>
                  (let s1 = s\<lparr>loaded_mods :=
                                AList.update module_name reloaded_module (loaded_mods s)\<rparr>;
                       s2 = s1\<lparr>registry :=
                                 filter (\<lambda>(tool_id, info). tool_id \<notin> old_tool_names)
                                   (registry s1)\<rparr>;
                       s3 = register_all module_name (clean_list_reload reloaded_module) s2;
                       new_tool_names = tools_of module_name (registry s3);
                       added = new_tool_names - old_tool_names;
                       removed = old_tool_names - new_tool_names
                   in (Reload_ok module_name added removed
                         (if added \<noteq> {} \<or> removed \<noteq> {}
                          then Some ''Consider reload_all() to rebuild collision detection''
                          else None), s3))))"

section \<open>Notions used to state the properties\<close>

text \<open>
  How many registrations of the name \<open>x\<close> the tracker has recorded: every call of
  \<^verbatim>\<open>_register_tool\<close> for \<open>x\<close> adds one pair to the history of \<open>x\<close>.
\<close>

definition claims_of :: "handler \<Rightarrow> string \<Rightarrow> nat" where
  "claims_of s x =
     (case map_of (name_tracker s) x of None \<Rightarrow> 0 | Some (first, later) \<Rightarrow> Suc (length later))"

text \<open>The name \<open>x\<close> was registered on the way from \<open>s\<close> to \<open>s'\<close>.\<close>

definition registered_in :: "handler \<Rightarrow> handler \<Rightarrow> string \<Rightarrow> bool" where
  "registered_in s s' x = (claims_of s x < claims_of s' x)"

text \<open>The test \<open>is_valid_path\<close> of the validation loop, as a predicate of the resolved path.\<close>

definition under_root :: "path list \<Rightarrow> path \<Rightarrow> bool" where
  "under_root dirs p = (\<exists>d \<in> set dirs. is_relative_to p d)"

text \<open>
  What the validation loop does with one candidate, read off \<open>validate_one\<close> (lemma
  \<open>validate_one_eq\<close> below): the reason it records, if it records one, and whether it
  accepts the candidate.
\<close>

definition rejection :: "world \<Rightarrow> path list \<Rightarrow> path \<Rightarrow> string option" where
  "rejection w dirs m =
     (if \<not> under_root dirs (resolve w m) then Some ''path_traversal_attempt''
      else if stem (resolve w m) = ''toolset'' then None
      else (case check_source w (resolve w m) of
              Parsed \<Rightarrow> None
            | SyntaxError \<Rightarrow> Some ''syntax_error''
            | ReadError e \<Rightarrow> Some (''read_error: '' @ exn_msg e)))"

definition accepted :: "world \<Rightarrow> path list \<Rightarrow> path \<Rightarrow> bool" where
  "accepted w dirs m =
     (under_root dirs (resolve w m) \<and> stem (resolve w m) \<noteq> ''toolset''
      \<and> check_source w (resolve w m) = Parsed)"

definition rejections :: "world \<Rightarrow> path list \<Rightarrow> path list \<Rightarrow> (path \<times> string) list" where
  "rejections w dirs ms =
     concat (map (\<lambda>m. case rejection w dirs m of None \<Rightarrow> [] | Some r \<Rightarrow> [(m, r)]) ms)"

text \<open>The rows the startup loop can add for the candidates \<open>P\<close> whose execution raises.\<close>

definition import_errors :: "world \<Rightarrow> path set \<Rightarrow> (path \<times> string) set" where
  "import_errors w P =
     {(p, r). p \<in> P \<and> (\<exists>e. exec_module w (stem p) p = Inl e \<and> r = ''import_error: '' @ exn_msg e)}"

text \<open>
  The states a load loop can reach from \<open>s\<close> when it stores modules named in \<open>N\<close> and
  records rows of \<open>R\<close>: both load loops are built from these three steps.
\<close>

inductive loads :: "string set \<Rightarrow> (path \<times> string) set \<Rightarrow> handler \<Rightarrow> handler \<Rightarrow> bool"
  for N :: "string set" and R :: "(path \<times> string) set" and s :: handler where
  loads_refl: "loads N R s s"
| loads_sys: "loads N R s t \<Longrightarrow> loads N R s (t\<lparr>sys_modules := S\<rparr>)"
| loads_reject:
    "loads N R s t \<Longrightarrow> row \<in> R \<Longrightarrow>
     loads N R s (t\<lparr>rejected_modules := rejected_modules t @ [row]\<rparr>)"
| loads_store: "loads N R s t \<Longrightarrow> n \<in> N \<Longrightarrow> loads N R s (store_module n tmod t)"

text \<open>
  A candidate under a valid directory whose resolved stem is \<^verbatim>\<open>toolset\<close> is neither
  accepted nor in the rejection log, and no module of that name is loaded.
\<close>

definition toolset_skipped :: "world \<Rightarrow> handler \<Rightarrow> bool" where
  "toolset_skipped w t =
     ((\<forall>m \<in> set (raw_modules t).
         under_root (valid_dirs t) (resolve w m) \<and> stem (resolve w m) = ''toolset'' \<longrightarrow>
           resolve w m \<notin> set (okmods t) \<and> (\<forall>r. (m, r) \<notin> set (rejected_modules t)))
      \<and> ''toolset'' \<notin> fst ` set (loaded_mods t))"

text \<open>
  The original names of the tools a module has in the registry, and the registry state a
  collision or an earlier partial reload leaves for a module: keys are distinct, and every
  tool of the module sits under its suffixed key, is known to the name tracker, and has no
  row under its bare name.
\<close>

definition tool_names_of :: "string \<Rightarrow> (string \<times> tool_entry) list \<Rightarrow> string set" where
  "tool_names_of module_name reg =
     set (map (\<lambda>(tool_id, info). original_name info)
            (filter (\<lambda>(tool_id, info). source_module info = module_name) reg))"

definition settled :: "string \<Rightarrow> handler \<Rightarrow> bool" where
  "settled module_name s =
     (distinct (map fst (registry s))
      \<and> (\<forall>(tool_id, info) \<in> set (registry s).
            source_module info = module_name \<longrightarrow>
              tool_id = original_name info @ ''_'' @ module_name
              \<and> map_of (name_tracker s) (original_name info) \<noteq> None
              \<and> map_of (registry s) (original_name info) = None))"

section \<open>Worked inputs\<close>

text \<open>
  A module table as \<^verbatim>\<open>dir\<close> lists it: a dunder attribute, an underscore helper, two
  functions, a constant, and a function with a double underscore inside its name.
\<close>

definition demo_table :: namespace where
  "demo_table =
     [(''__doc__'', PyObj 0 None False), (''_hid'', PyObj 1 None True),
      (''bar'', PyObj 2 (Some ''Bar.'') True), (''foo'', PyObj 3 None True),
      (''limit'', PyObj 4 None False), (''my__tool'', PyObj 5 None True)]"

text \<open>A handler with one module \<^verbatim>\<open>m\<close> that owns the tool \<^verbatim>\<open>foo\<close>.\<close>

definition demo_handler :: handler where
  "demo_handler =
     \<lparr>valid_dirs = [[''srv'', ''modules'']],
      registry = [(''foo'', new_entry (PyObj 3 None True) ''m'' ''foo'' False)],
      name_tracker = [(''foo'', (''m'', ''foo''), [])],
      rejected_modules = [], raw_modules = [[''srv'', ''modules'', ''m.py'']],
      okmods = [[''srv'', ''modules'', ''m.py'']],
      loaded_mods = [(''m'', [(''foo'', PyObj 3 None True)])],
      sys_modules = {''m''}\<rparr>"

text \<open>A call that needs the keyword \<^verbatim>\<open>x\<close> and raises without it.\<close>

definition demo_call :: "pyobj \<Rightarrow> (string \<times> int) list \<Rightarrow> exn + int" where
  "demo_call f kwargs =
     (if \<not> obj_callable f then Inl (Exn ''TypeError'' ''object is not callable'')
      else case map_of kwargs ''x'' of
             None \<Rightarrow> Inl (Exn ''TypeError'' ''missing argument'')
           | Some v \<Rightarrow> Inr (v + int (obj_id f)))"

text \<open>
  A directory with \<^verbatim>\<open>bad.py\<close>, which raises when executed, and \<^verbatim>\<open>m.py\<close>, which
  gives \<open>demo_table\<close>; re-executing a loaded module defines \<^verbatim>\<open>foo\<close> anew and then
  raises.
\<close>

definition broken_world :: world where
  "broken_world =
     \<lparr>glob_py = (\<lambda>d. if d = [''srv'', ''modules'']
                       then [[''srv'', ''modules'', ''bad.py''], [''srv'', ''modules'', ''m.py'']]
                       else []),
      resolve = (\<lambda>p. p),
      path_exists = (\<lambda>p. p = [''srv'', ''modules'', ''m.py'']),
      check_source = (\<lambda>p. Parsed),
      has_spec = (\<lambda>n p. True),
      exec_module = (\<lambda>n p. if n = ''m'' then Inr demo_table
                             else Inl (Exn ''ValueError'' ''boom'')),
      exec_module_in =
        (\<lambda>n p old. Inl (Interrupted (Exn ''ZeroDivisionError'' ''division by zero'') True
                              [(''foo'', PyObj 6 None True)])),
      importlib_reload = (\<lambda>n. Inl (Exn ''ModuleNotFoundError'' ''spec not found''))\<rparr>"

text \<open>
  A directory with the one module \<^verbatim>\<open>m.py\<close> that defines \<^verbatim>\<open>bar\<close> and
  \<^verbatim>\<open>foo\<close>; after an edit, re-executing it leaves only \<^verbatim>\<open>foo\<close>.
\<close>

definition plain_world :: world where
  "plain_world =
     \<lparr>glob_py = (\<lambda>d. if d = [''srv'', ''modules''] then [[''srv'', ''modules'', ''m.py'']]
                       else []),
      resolve = (\<lambda>p. p),
      path_exists = (\<lambda>p. p = [''srv'', ''modules'', ''m.py'']),
      check_source = (\<lambda>p. Parsed),
      has_spec = (\<lambda>n p. True),
      exec_module = (\<lambda>n p. Inr [(''bar'', PyObj 2 None True), (''foo'', PyObj 3 None True)]),
      exec_module_in = (\<lambda>n p old. Inr [(''foo'', PyObj 6 None True)]),
      importlib_reload = (\<lambda>n. Inl (Exn ''ModuleNotFoundError'' ''spec not found''))\<rparr>"

text \<open>
  A directory whose only entry \<^verbatim>\<open>toolset.py\<close> is a symbolic link to a file outside
  the module directories.
\<close>

definition link_world :: world where
  "link_world =
     \<lparr>glob_py = (\<lambda>d. if d = [''srv'', ''modules'']
                       then [[''srv'', ''modules'', ''toolset.py'']] else []),
      resolve = (\<lambda>p. if p = [''srv'', ''modules'', ''toolset.py'']
                       then [''opt'', ''toolset.py''] else p),
      path_exists = (\<lambda>p. False),
      check_source = (\<lambda>p. Parsed),
      has_spec = (\<lambda>n p. True),
      exec_module = (\<lambda>n p. Inr []),
      exec_module_in = (\<lambda>n p old. Inr []),
      importlib_reload = (\<lambda>n. Inl (Exn ''ModuleNotFoundError'' ''spec not found''))\<rparr>"

text \<open>
  A directory with \<^verbatim>\<open>toolset.py\<close> and \<^verbatim>\<open>m.py\<close>, both real files.
\<close>

definition toolset_world :: world where
  "toolset_world =
     \<lparr>glob_py = (\<lambda>d. if d = [''srv'', ''modules'']
                       then [[''srv'', ''modules'', ''toolset.py''], [''srv'', ''modules'', ''m.py'']]
                       else []),
      resolve = (\<lambda>p. p),
      path_exists = (\<lambda>p. False),
      check_source = (\<lambda>p. Parsed),
      has_spec = (\<lambda>n p. True),
      exec_module = (\<lambda>n p. Inr [(''foo'', PyObj 3 None True)]),
      exec_module_in = (\<lambda>n p old. Inr [(''foo'', PyObj 3 None True)]),
      importlib_reload = (\<lambda>n. Inl (Exn ''ModuleNotFoundError'' ''spec not found''))\<rparr>"


text \<open>
  A module directory with \<^verbatim>\<open>colorsys.py\<close>, which now defines \<^verbatim>\<open>mine\<close>. The name
  is also that of a module of the standard library: \<^verbatim>\<open>importlib.reload\<close> finds the
  library's file by name and executes it inside the module object, which still has the
  binding \<^verbatim>\<open>gone\<close> of an earlier version of the file.
\<close>

definition foreign_world :: world where
  "foreign_world =
     \<lparr>glob_py = (\<lambda>d. if d = [''srv'', ''modules'']
                       then [[''srv'', ''modules'', ''colorsys.py'']] else []),
      resolve = (\<lambda>p. p),
      path_exists = (\<lambda>p. p = [''srv'', ''modules'', ''colorsys.py'']),
      check_source = (\<lambda>p. Parsed),
      has_spec = (\<lambda>n p. True),
      exec_module = (\<lambda>n p. Inr [(''mine'', PyObj 20 None True)]),
      exec_module_in = (\<lambda>n p old. Inr [(''mine'', PyObj 20 None True)]),
      importlib_reload =
        (\<lambda>n. Inr ([''usr'', ''lib'', ''python3'', ''colorsys.py''],
                   [(''gone'', PyObj 21 None True), (''rgb_to_hls'', PyObj 22 None True)]))\<rparr>"

text \<open>
  The handler after a startup that loaded the earlier \<^verbatim>\<open>colorsys.py\<close>, which defined
  \<^verbatim>\<open>gone\<close>.
\<close>

definition foreign_handler :: handler where
  "foreign_handler =
     \<lparr>valid_dirs = [[''srv'', ''modules'']],
      registry = [(''gone'', new_entry (PyObj 21 None True) ''colorsys'' ''gone'' False)],
      name_tracker = [(''gone'', (''colorsys'', ''gone''), [])],
      rejected_modules = [], raw_modules = [[''srv'', ''modules'', ''colorsys.py'']],
      okmods = [[''srv'', ''modules'', ''colorsys.py'']],
      loaded_mods = [(''colorsys'', [(''gone'', PyObj 21 None True)])],
      sys_modules = {''colorsys''}\<rparr>"

text \<open>
  The handler after startup on \<open>plain_world\<close> and one partial reload of the unchanged
  module \<^verbatim>\<open>m\<close>: both tools sit under their suffixed keys.
\<close>

definition settled_handler :: handler where
  "settled_handler =
     \<lparr>valid_dirs = [[''srv'', ''modules'']],
      registry = [(''bar_m'', new_entry (PyObj 2 None True) ''m'' ''bar'' True),
                  (''foo_m'', new_entry (PyObj 3 None True) ''m'' ''foo'' True)],
      name_tracker = [(''bar'', (''m'', ''bar''), [(''m'', ''bar_m'')]),
                      (''foo'', (''m'', ''foo''), [(''m'', ''foo_m'')])],
      rejected_modules = [], raw_modules = [[''srv'', ''modules'', ''m.py'']],
      okmods = [[''srv'', ''modules'', ''m.py'']],
      loaded_mods = [(''m'', [(''bar'', PyObj 2 None True), (''foo'', PyObj 3 None True)])],
      sys_modules = {''m''}\<rparr>"

section \<open>Properties\<close>

lemma map_of_key: "map_of al k = Some v \<Longrightarrow> k \<in> fst ` set al"
  by (metis map_of_eq_None_iff option.distinct(1))

subsection \<open>Registration, discovery and the load loops: auxiliary facts\<close>

lemma register_tool_fields [simp]:
  "valid_dirs (register_tool x M f s) = valid_dirs s"
  "rejected_modules (register_tool x M f s) = rejected_modules s"
  "raw_modules (register_tool x M f s) = raw_modules s"
  "okmods (register_tool x M f s) = okmods s"
  "loaded_mods (register_tool x M f s) = loaded_mods s"
  "sys_modules (register_tool x M f s) = sys_modules s"
  by (simp_all add: register_tool_def rename_first_def Let_def split: option.splits prod.splits)

lemma claims_of_register_tool:
  "claims_of (register_tool x' M f s) x = claims_of s x + (if x = x' then 1 else 0)"
  by (simp add: claims_of_def register_tool_def rename_first_def Let_def AList.update_conv'
      split: option.splits prod.splits)

lemma register_all_Nil [simp]: "register_all M [] s = s"
  by (simp add: register_all_def)

lemma register_all_Cons [simp]:
  "register_all M ((x, f) # rows) s = register_all M rows (register_tool x M f s)"
  by (simp add: register_all_def)

lemma register_all_fields [simp]:
  "valid_dirs (register_all M rows s) = valid_dirs s"
  "rejected_modules (register_all M rows s) = rejected_modules s"
  "raw_modules (register_all M rows s) = raw_modules s"
  "okmods (register_all M rows s) = okmods s"
  "loaded_mods (register_all M rows s) = loaded_mods s"
  "sys_modules (register_all M rows s) = sys_modules s"
  by (induction rows arbitrary: s; auto)+

lemma claims_of_register_all:
  "claims_of (register_all M rows s) x = claims_of s x + count_list (map fst rows) x"
  by (induction rows arbitrary: s) (auto simp: claims_of_register_tool)

lemma set_update_subset: "set (AList.update k v al) \<subseteq> insert (k, v) (set al)"
  by (induction al) auto

lemma set_delete_subset: "set (AList.delete k al) \<subseteq> set al"
  by (auto simp: AList.delete_eq)

lemma rows_update:
  assumes "\<forall>(k, e) \<in> set al. Q e" and "Q v"
  shows "\<forall>(k, e) \<in> set (AList.update k' v al). Q e"
  using assms set_update_subset [of k' v al] by fastforce

lemma rows_delete:
  assumes "\<forall>(k, e) \<in> set al. Q e"
  shows "\<forall>(k, e) \<in> set (AList.delete k' al). Q e"
  using assms set_delete_subset [of k' al] by fastforce

lemma rows_register_tool:
  assumes rows: "\<forall>(k, e) \<in> set (registry s). Q e"
    and new: "\<And>c. Q (new_entry f M x c)"
    and flag: "\<And>e. Q e \<Longrightarrow> Q (e\<lparr>had_collision := True\<rparr>)"
  shows "\<forall>(k, e) \<in> set (registry (register_tool x M f s)). Q e"
proof (cases "map_of (name_tracker s) x")
  case None
  then have "registry (register_tool x M f s) =
      AList.update x (new_entry f M x False) (registry s)"
    by (simp add: register_tool_def)
  then show ?thesis
    using rows_update [OF rows, of "new_entry f M x False"] new by simp
next
  case (Some hist)
  obtain fm ft later where hist: "hist = ((fm, ft), later)"
    by (metis prod.exhaust)
  show ?thesis
  proof (cases "if ft = x then map_of (registry s) x else None")
    case None
    then have "registry (register_tool x M f s) =
        AList.update (x @ ''_'' @ M) (new_entry f M x True) (registry s)"
      using Some hist by (simp add: register_tool_def rename_first_def Let_def)
    then show ?thesis
      using rows_update [OF rows, of "new_entry f M x True"] new by simp
  next
    case (Some e)
    then have "(x, e) \<in> set (registry s)"
      by (auto split: if_splits dest: map_of_SomeD)
    then have q: "Q (e\<lparr>had_collision := True\<rparr>)"
      using rows flag by auto
    have "registry (register_tool x M f s) =
        AList.update (x @ ''_'' @ M) (new_entry f M x True)
          (AList.update (x @ ''_'' @ fm) (e\<lparr>had_collision := True\<rparr>)
             (AList.delete x (registry s)))"
      using \<open>map_of (name_tracker s) x = Some hist\<close> hist Some
      by (simp add: register_tool_def rename_first_def Let_def)
    then show ?thesis
      using rows_update [OF rows_update [OF rows_delete [OF rows] q], of "new_entry f M x True"]
        new by simp
  qed
qed

lemma rows_register_all:
  assumes rows: "\<forall>(k, e) \<in> set (registry s). Q e"
    and new: "\<And>x f c. (x, f) \<in> set rs \<Longrightarrow> Q (new_entry f M x c)"
    and flag: "\<And>e. Q e \<Longrightarrow> Q (e\<lparr>had_collision := True\<rparr>)"
  shows "\<forall>(k, e) \<in> set (registry (register_all M rs s)). Q e"
  using rows new
proof (induction rs arbitrary: s)
  case Nil
  then show ?case by simp
next
  case (Cons r rs)
  obtain x f where r: "r = (x, f)" by (cases r)
  have "\<forall>(k, e) \<in> set (registry (register_tool x M f s)). Q e"
    using Cons.prems r flag by (intro rows_register_tool) auto
  then show ?case
    using Cons.IH [of "register_tool x M f s"] Cons.prems(2) r by simp
qed

lemma validate_one_eq:
  "validate_one w s m =
     s\<lparr>rejected_modules := rejected_modules s @ rejections w (valid_dirs s) [m],
       okmods := okmods s @ map (resolve w) (filter (accepted w (valid_dirs s)) [m])\<rparr>"
  by (simp add: validate_one_def rejections_def rejection_def accepted_def under_root_def
      list_ex_iff Let_def split: source_check.splits)

lemma validate_fold_eq:
  "foldl (validate_one w) s ms =
     s\<lparr>rejected_modules := rejected_modules s @ rejections w (valid_dirs s) ms,
       okmods := okmods s @ map (resolve w) (filter (accepted w (valid_dirs s)) ms)\<rparr>"
proof (induction ms arbitrary: s)
  case Nil
  then show ?case by (simp add: rejections_def)
next
  case (Cons m ms)
  have "foldl (validate_one w) s (m # ms) = foldl (validate_one w) (validate_one w s m) ms"
    by simp
  also have "\<dots> = s\<lparr>rejected_modules := rejected_modules s @ rejections w (valid_dirs s) (m # ms),
       okmods := okmods s @ map (resolve w) (filter (accepted w (valid_dirs s)) (m # ms))\<rparr>"
    unfolding Cons.IH by (simp add: validate_one_eq rejections_def)
  finally show ?case .
qed

lemma discover_eq:
  "discover w s =
     s\<lparr>raw_modules := concat (map (glob_py w) (valid_dirs s)),
       rejected_modules :=
         rejected_modules s @ rejections w (valid_dirs s) (concat (map (glob_py w) (valid_dirs s))),
       okmods :=
         map (resolve w)
           (filter (accepted w (valid_dirs s)) (concat (map (glob_py w) (valid_dirs s))))\<rparr>"
  by (simp add: discover_def Let_def validate_fold_eq)

lemma in_rejections:
  "(m, r) \<in> set (rejections w dirs ms) \<longleftrightarrow> m \<in> set ms \<and> rejection w dirs m = Some r"
  by (auto simp: rejections_def split: option.splits)

lemma fresh_import_state:
  "snd (fresh_import w n p s) = s \<or>
   snd (fresh_import w n p s) = s\<lparr>sys_modules := insert n (sys_modules s)\<rparr>"
  by (simp add: fresh_import_def split: sum.splits)

lemma obtain_module_state:
  "snd (obtain_module w n p s) = s \<or>
   snd (obtain_module w n p s) = s\<lparr>sys_modules := insert n (sys_modules s)\<rparr>"
  using fresh_import_state [of w n p s]
  by (auto simp: obtain_module_def split: sum.splits)

lemma store_module_fields [simp]:
  "valid_dirs (store_module n tmod s) = valid_dirs s"
  "rejected_modules (store_module n tmod s) = rejected_modules s"
  "raw_modules (store_module n tmod s) = raw_modules s"
  "okmods (store_module n tmod s) = okmods s"
  "loaded_mods (store_module n tmod s) = AList.update n tmod (loaded_mods s)"
  "sys_modules (store_module n tmod s) = sys_modules s"
  by (simp_all add: store_module_def)

lemma claims_of_sys_modules [simp]:
  "claims_of (s\<lparr>sys_modules := S\<rparr>) x = claims_of s x"
  by (simp add: claims_of_def)

lemma claims_of_rejected [simp]:
  "claims_of (s\<lparr>rejected_modules := R\<rparr>) x = claims_of s x"
  by (simp add: claims_of_def)

lemma claims_of_loaded [simp]:
  "claims_of (s\<lparr>loaded_mods := L\<rparr>) x = claims_of s x"
  by (simp add: claims_of_def)

lemma claims_of_store_module:
  "claims_of (store_module n tmod s) x = claims_of s x + count_list (map fst (clean_list tmod)) x"
  by (simp add: store_module_def claims_of_register_all)

lemma loads_mono:
  assumes "loads N R s t" and "N \<subseteq> N'" and "R \<subseteq> R'"
  shows "loads N' R' s t"
  using assms
  by (induction rule: loads.induct) (auto intro: loads.intros)

lemma loads_trans:
  assumes "loads N R t u" and "loads N R s t"
  shows "loads N R s u"
  using assms
  by (induction rule: loads.induct) (auto intro: loads.intros)

lemma loads_fields:
  assumes "loads N R s t"
  shows "valid_dirs t = valid_dirs s \<and> raw_modules t = raw_modules s \<and> okmods t = okmods s"
  using assms by (induction rule: loads.induct) auto

lemma loads_rejected:
  assumes "loads N R s t"
  shows "\<exists>extra. rejected_modules t = rejected_modules s @ extra \<and> set extra \<subseteq> R"
  using assms
proof (induction rule: loads.induct)
  case (loads_reject t row)
  then obtain extra where "rejected_modules t = rejected_modules s @ extra" "set extra \<subseteq> R"
    by blast
  then have "rejected_modules (t\<lparr>rejected_modules := rejected_modules t @ [row]\<rparr>)
      = rejected_modules s @ (extra @ [row]) \<and> set (extra @ [row]) \<subseteq> R"
    using loads_reject.hyps by simp
  then show ?case by blast
qed auto

lemma loads_loaded:
  assumes "loads N R s t"
  shows "fst ` set (loaded_mods t) \<subseteq> fst ` set (loaded_mods s) \<union> N"
  using assms
  by (induction rule: loads.induct) (auto simp: AList.dom_update)

lemma store_module_rows:
  assumes rows: "\<forall>(k, e) \<in> set (registry s). Q e"
    and new: "\<And>x f c. (x, f) \<in> set (clean_list tmod) \<Longrightarrow> Q (new_entry f n x c)"
    and flag: "\<And>e. Q e \<Longrightarrow> Q (e\<lparr>had_collision := True\<rparr>)"
  shows "\<forall>(k, e) \<in> set (registry (store_module n tmod s)). Q e"
  unfolding store_module_def
  by (rule rows_register_all) (use rows new flag in auto)

lemma loads_rows:
  assumes "loads N R s t"
    and rows: "\<forall>(k, e) \<in> set (registry s). Q e"
    and new: "\<And>n x f c tmod. n \<in> N \<Longrightarrow> (x, f) \<in> set (clean_list tmod) \<Longrightarrow> Q (new_entry f n x c)"
    and flag: "\<And>e. Q e \<Longrightarrow> Q (e\<lparr>had_collision := True\<rparr>)"
  shows "\<forall>(k, e) \<in> set (registry t). Q e"
  using assms(1)
proof (induction rule: loads.induct)
  case loads_refl
  then show ?case using rows .
next
  case (loads_store t n tmod)
  show ?case
    by (rule store_module_rows [OF loads_store.IH]) (use new flag loads_store.hyps in auto)
qed auto

lemma clean_list_no_dunder:
  "py_in ''__'' x \<Longrightarrow> x \<notin> fst ` set (clean_list tmod)"
  by (auto simp: clean_list_def)

lemma clean_list_reload_no_dunder:
  "py_in ''__'' x \<Longrightarrow> x \<notin> fst ` set (clean_list_reload tmod)"
  by (auto simp: clean_list_reload_def)

lemma loads_claims:
  assumes "loads N R s t" and "py_in ''__'' x"
  shows "claims_of t x = claims_of s x"
  using assms
  by (induction rule: loads.induct)
     (auto simp: claims_of_store_module count_list_0_iff dest: clean_list_no_dunder)

lemma load_one_init_cases:
  "load_one_init w s p = s
   \<or> (\<exists>e. exec_module w (stem p) p = Inl e \<and>
        load_one_init w s p =
          s\<lparr>sys_modules := insert (stem p) (sys_modules s),
            rejected_modules := rejected_modules s @ [(p, ''import_error: '' @ exn_msg e)]\<rparr>)
   \<or> (\<exists>tmod. fresh_import w (stem p) p s =
                 (Module tmod, s\<lparr>sys_modules := insert (stem p) (sys_modules s)\<rparr>) \<and>
        load_one_init w s p =
          store_module (stem p) tmod (s\<lparr>sys_modules := insert (stem p) (sys_modules s)\<rparr>))"
  by (simp add: load_one_init_def fresh_import_def Let_def split: sum.splits)

lemma load_one_init_loads:
  "loads {stem p} (import_errors w {p}) s (load_one_init w s p)"
proof -
  let ?s1 = "s\<lparr>sys_modules := insert (stem p) (sys_modules s)\<rparr>"
  have s1: "loads {stem p} (import_errors w {p}) s ?s1"
    by (rule loads_sys [OF loads_refl])
  consider "load_one_init w s p = s"
    | e where "exec_module w (stem p) p = Inl e"
        "load_one_init w s p =
           ?s1\<lparr>rejected_modules := rejected_modules ?s1 @ [(p, ''import_error: '' @ exn_msg e)]\<rparr>"
    | tmod where "load_one_init w s p = store_module (stem p) tmod ?s1"
    using load_one_init_cases [of w s p] by auto
  then show ?thesis
  proof cases
    case 1
    then show ?thesis by (simp add: loads_refl)
  next
    case (2 e)
    have "(p, ''import_error: '' @ exn_msg e) \<in> import_errors w {p}"
      using 2(1) by (auto simp: import_errors_def)
    then show ?thesis
      unfolding 2(2) by (rule loads_reject [OF s1])
  next
    case (3 tmod)
    show ?thesis
      unfolding 3 by (rule loads_store [OF s1]) simp
  qed
qed

lemma fold_load_one_init_loads:
  "loads (stem ` set ps) (import_errors w (set ps)) s (foldl (load_one_init w) s ps)"
proof (induction ps arbitrary: s)
  case Nil
  then show ?case by (simp add: loads_refl)
next
  case (Cons p ps)
  have a: "loads (stem ` set (p # ps)) (import_errors w (set (p # ps))) s (load_one_init w s p)"
    by (rule loads_mono [OF load_one_init_loads]) (auto simp: import_errors_def)
  have b: "loads (stem ` set (p # ps)) (import_errors w (set (p # ps))) (load_one_init w s p)
      (foldl (load_one_init w) (load_one_init w s p) ps)"
    by (rule loads_mono [OF Cons.IH]) (auto simp: import_errors_def)
  show ?case using loads_trans [OF b a] by simp
qed

lemma load_one_reload_cases:
  "load_one_reload w s p = (None, s)
   \<or> (\<exists>e S. load_one_reload w s p = (Some e, s\<lparr>sys_modules := S\<rparr>))
   \<or> (\<exists>tmod S. obtain_module w (stem p) p s = (Module tmod, s\<lparr>sys_modules := S\<rparr>) \<and>
        load_one_reload w s p = (None, store_module (stem p) tmod (s\<lparr>sys_modules := S\<rparr>)))"
proof -
  obtain r s1 where o: "obtain_module w (stem p) p s = (r, s1)"
    by (cases "obtain_module w (stem p) p s")
  then have "s1 = s \<or> s1 = s\<lparr>sys_modules := insert (stem p) (sys_modules s)\<rparr>"
    using obtain_module_state [of w "stem p" p s] by simp
  then have s1: "s1 = s\<lparr>sys_modules := sys_modules s1\<rparr>"
    by auto
  have ns: "r = No_spec \<Longrightarrow> s1 = s"
    using o by (auto simp: obtain_module_def fresh_import_def split: if_splits sum.splits)
  show ?thesis
  proof (cases r)
    case No_spec
    then show ?thesis using o ns by (simp add: load_one_reload_def)
  next
    case (Raised e)
    then show ?thesis using o s1 by (auto simp: load_one_reload_def)
  next
    case (Module tmod)
    then show ?thesis using o s1 by (auto simp: load_one_reload_def)
  qed
qed

lemma load_one_reload_loads: "loads {stem p} {} s (snd (load_one_reload w s p))"
proof -
  consider "load_one_reload w s p = (None, s)"
    | e S where "load_one_reload w s p = (Some e, s\<lparr>sys_modules := S\<rparr>)"
    | tmod S where
        "load_one_reload w s p = (None, store_module (stem p) tmod (s\<lparr>sys_modules := S\<rparr>))"
    using load_one_reload_cases [of w s p] by auto
  then show ?thesis
  proof cases
    case 1
    then show ?thesis by (simp add: loads_refl)
  next
    case (2 e S)
    then show ?thesis by (simp add: loads_sys [OF loads_refl])
  next
    case (3 tmod S)
    have "loads {stem p} {} s (store_module (stem p) tmod (s\<lparr>sys_modules := S\<rparr>))"
      by (rule loads_store [OF loads_sys [OF loads_refl]]) simp
    then show ?thesis using 3 by simp
  qed
qed

lemma load_all_reload_loads: "loads (stem ` set ps) {} s (snd (load_all_reload w ps s))"
proof (induction ps arbitrary: s)
  case Nil
  then show ?case by (simp add: loads_refl)
next
  case (Cons p ps)
  obtain r s1 where l: "load_one_reload w s p = (r, s1)"
    by (cases "load_one_reload w s p")
  have a: "loads (stem ` set (p # ps)) {} s s1"
    using loads_mono [OF load_one_reload_loads [of p s w], of "stem ` set (p # ps)" "{}"] l
    by simp
  show ?case
  proof (cases r)
    case None
    have b: "loads (stem ` set (p # ps)) {} s1 (snd (load_all_reload w ps s1))"
      by (rule loads_mono [OF Cons.IH]) auto
    show ?thesis using loads_trans [OF b a] l None by simp
  next
    case (Some e)
    then show ?thesis using a l by simp
  qed
qed

lemma fst_clean_list:
  "x \<in> fst ` set (clean_list tmod) \<longleftrightarrow>
   x \<in> fst ` set tmod \<and> \<not> py_in ''__'' x \<and> islower x \<and> \<not> startswith x ''_''"
  by (force simp: clean_list_def)

lemma fst_clean_list_reload:
  "x \<in> fst ` set (clean_list_reload tmod) \<longleftrightarrow>
   x \<in> fst ` set tmod \<and> \<not> py_in ''__'' x \<and> islower x"
  by (force simp: clean_list_reload_def)

lemma count_list_pos: "0 < count_list (map fst rows) x \<longleftrightarrow> x \<in> fst ` set rows"
  using count_list_0_iff [of "map fst rows" x] by auto

lemma registered_in_store_module:
  assumes "name_tracker s1 = name_tracker s"
  shows "registered_in s (store_module n tmod s1) x \<longleftrightarrow> x \<in> fst ` set (clean_list tmod)"
proof -
  have "claims_of s1 x = claims_of s x"
    using assms by (simp add: claims_of_def)
  then show ?thesis
    by (simp add: registered_in_def claims_of_store_module count_list_pos)
qed

lemma fresh_import_tracker: "name_tracker (snd (fresh_import w n p s)) = name_tracker s"
  using fresh_import_state [of w n p s] by auto

lemma obtain_module_tracker: "name_tracker (snd (obtain_module w n p s)) = name_tracker s"
  using obtain_module_state [of w n p s] by auto

lemma reload_module_claims:
  assumes "map_of (loaded_mods s) M = Some old" and "reexecute w s M old = Inr tmod"
  shows "claims_of (snd (reload_module w s M)) x =
         claims_of s x + count_list (map fst (clean_list_reload tmod)) x"
  using assms
  by (simp add: reload_module_def Let_def claims_of_register_all) (simp add: claims_of_def)

lemma init_loads:
  "loads (stem ` set (okmods (discover w (initial_state w base sysmods))))
     (import_errors w (set (okmods (discover w (initial_state w base sysmods)))))
     (discover w (initial_state w base sysmods)) (proxy_handler_init w base sysmods)"
  by (simp add: proxy_handler_init_def Let_def fold_load_one_init_loads)

lemma snd_reload_all:
  "snd (reload_all_modules w s) =
   snd (load_all_reload w (okmods (discover w (clear_state s))) (discover w (clear_state s)))"
  by (simp add: reload_all_modules_def Let_def split: prod.splits option.splits)

lemma reload_all_loads:
  "loads (stem ` set (okmods (discover w (clear_state s)))) {}
     (discover w (clear_state s)) (snd (reload_all_modules w s))"
  by (simp add: snd_reload_all load_all_reload_loads)

lemma initial_state_fields [simp]:
  "registry (initial_state w base sysmods) = []"
  "name_tracker (initial_state w base sysmods) = []"
  "rejected_modules (initial_state w base sysmods) = []"
  "loaded_mods (initial_state w base sysmods) = []"
  by (simp_all add: initial_state_def Let_def)

lemma clear_state_fields [simp]:
  "registry (clear_state s) = []"
  "name_tracker (clear_state s) = []"
  "rejected_modules (clear_state s) = []"
  "loaded_mods (clear_state s) = []"
  "valid_dirs (clear_state s) = valid_dirs s"
  "sys_modules (clear_state s) = sys_modules s"
  by (simp_all add: clear_state_def)

lemma after_discovery:
  assumes L: "loads (stem ` set (okmods (discover w s0))) R (discover w s0) t"
    and e: "loaded_mods s0 = []" "rejected_modules s0 = []" "registry s0 = []"
  shows "valid_dirs t = valid_dirs s0"
    and "raw_modules t = concat (map (glob_py w) (valid_dirs s0))"
    and "okmods t = map (resolve w) (filter (accepted w (valid_dirs s0)) (raw_modules t))"
    and "\<exists>extra. rejected_modules t = rejections w (valid_dirs s0) (raw_modules t) @ extra
           \<and> set extra \<subseteq> R"
    and "fst ` set (loaded_mods t) \<subseteq> stem ` set (okmods t)"
    and "\<forall>(k, e) \<in> set (registry t). source_module e \<in> stem ` set (okmods t)"
proof -
  have f: "valid_dirs t = valid_dirs (discover w s0)" "raw_modules t = raw_modules (discover w s0)"
    "okmods t = okmods (discover w s0)"
    using loads_fields [OF L] by simp_all
  show "valid_dirs t = valid_dirs s0"
    using f by (simp add: discover_eq)
  show raw: "raw_modules t = concat (map (glob_py w) (valid_dirs s0))"
    using f by (simp add: discover_eq)
  show "okmods t = map (resolve w) (filter (accepted w (valid_dirs s0)) (raw_modules t))"
    unfolding raw using f by (simp add: discover_eq)
  show "\<exists>extra. rejected_modules t = rejections w (valid_dirs s0) (raw_modules t) @ extra
           \<and> set extra \<subseteq> R"
    unfolding raw using loads_rejected [OF L] e by (simp add: discover_eq)
  show "fst ` set (loaded_mods t) \<subseteq> stem ` set (okmods t)"
    using loads_loaded [OF L] e f by (simp add: discover_eq)
  have "\<forall>(k, e) \<in> set (registry t). source_module e \<in> stem ` set (okmods (discover w s0))"
    by (rule loads_rows [OF L]) (use e in \<open>auto simp: discover_eq new_entry_def\<close>)
  then show "\<forall>(k, e) \<in> set (registry t). source_module e \<in> stem ` set (okmods t)"
    using f by simp
qed

lemma claims_of_zero: "claims_of s x = 0 \<longleftrightarrow> map_of (name_tracker s) x = None"
  by (simp add: claims_of_def split: option.splits prod.splits)

lemma loads_no_dunder:
  assumes L: "loads N R (discover w s0) t" and d: "py_in ''__'' x"
    and e: "registry s0 = []" "name_tracker s0 = []"
  shows "map_of (name_tracker t) x = None"
    and "\<forall>(k, e) \<in> set (registry t). original_name e \<noteq> x"
proof -
  have "claims_of t x = claims_of (discover w s0) x"
    by (rule loads_claims [OF L d])
  also have "\<dots> = 0"
    using e by (simp add: claims_of_def discover_eq)
  finally show "map_of (name_tracker t) x = None"
    by (simp add: claims_of_zero)
  show "\<forall>(k, e) \<in> set (registry t). original_name e \<noteq> x"
  proof (rule loads_rows [OF L])
    show "\<forall>(k, e) \<in> set (registry (discover w s0)). original_name e \<noteq> x"
      using e by (simp add: discover_eq)
  next
    fix n y f c tmod
    assume "(y, f) \<in> set (clean_list tmod)"
    then have "y \<noteq> x"
      using clean_list_no_dunder [OF d, of tmod] by force
    then show "original_name (new_entry f n y c) \<noteq> x"
      by (simp add: new_entry_def)
  qed simp
qed

lemma toolset_skipped_after_discovery:
  assumes L: "loads (stem ` set (okmods (discover w s0))) R (discover w s0) t"
    and e: "loaded_mods s0 = []" "rejected_modules s0 = []" "registry s0 = []"
    and R: "\<And>m r. (m, r) \<in> R \<Longrightarrow> stem (resolve w m) \<noteq> ''toolset''"
  shows "toolset_skipped w t"
proof -
  note ad = after_discovery [OF L e]
  have ok: "\<And>p. p \<in> set (okmods t) \<Longrightarrow> stem p \<noteq> ''toolset''"
    using ad(3) by (auto simp: accepted_def)
  have a: "\<And>m. stem (resolve w m) = ''toolset'' \<Longrightarrow> resolve w m \<notin> set (okmods t)"
    using ok by blast
  have b: "\<And>m r. under_root (valid_dirs t) (resolve w m) \<Longrightarrow> stem (resolve w m) = ''toolset''
      \<Longrightarrow> (m, r) \<notin> set (rejected_modules t)"
  proof
    fix m r
    assume m: "under_root (valid_dirs t) (resolve w m)" "stem (resolve w m) = ''toolset''"
      and in_log: "(m, r) \<in> set (rejected_modules t)"
    obtain extra where x: "rejected_modules t = rejections w (valid_dirs s0) (raw_modules t) @ extra"
      "set extra \<subseteq> R"
      using ad(4) by blast
    have "(m, r) \<notin> set (rejections w (valid_dirs s0) (raw_modules t))"
      using m ad(1) by (simp add: in_rejections rejection_def)
    then have "(m, r) \<in> R"
      using in_log x by auto
    then show False
      using R m(2) by blast
  qed
  have c: "''toolset'' \<notin> fst ` set (loaded_mods t)"
  proof
    assume "''toolset'' \<in> fst ` set (loaded_mods t)"
    then have "''toolset'' \<in> stem ` set (okmods t)"
      using ad(5) by (rule rev_subsetD)
    then obtain p where "p \<in> set (okmods t)" and "''toolset'' = stem p"
      by (rule imageE)
    then show False
      using ok [of p] by simp
  qed
  show ?thesis
    unfolding toolset_skipped_def using a b c by blast
qed

lemma register_tool_tracked_absent:
  assumes "map_of (name_tracker s) x = Some hist" and "map_of (registry s) x = None"
  shows "register_tool x M f s =
     s\<lparr>registry := AList.update (x @ ''_'' @ M) (new_entry f M x True) (registry s),
       name_tracker :=
         AList.update x (fst hist, snd hist @ [(M, x @ ''_'' @ M)]) (name_tracker s)\<rparr>"
  using assms by (simp add: register_tool_def rename_first_def Let_def split: prod.splits)

lemma register_all_suffixed:
  assumes "\<forall>x \<in> fst ` set rows. map_of (name_tracker s) x \<noteq> None"
    and "\<forall>x \<in> fst ` set rows. map_of (registry s) x = None"
    and "\<forall>x \<in> fst ` set rows. \<forall>y \<in> fst ` set rows. x \<noteq> y @ ''_'' @ M"
  shows "(\<forall>k. k \<notin> (\<lambda>x. x @ ''_'' @ M) ` fst ` set rows \<longrightarrow>
            map_of (registry (register_all M rows s)) k = map_of (registry s) k)
       \<and> (\<forall>k \<in> (\<lambda>x. x @ ''_'' @ M) ` fst ` set rows.
            \<exists>e. map_of (registry (register_all M rows s)) k = Some e \<and> source_module e = M)
       \<and> (distinct (map fst (registry s)) \<longrightarrow>
            distinct (map fst (registry (register_all M rows s))))"
  using assms
proof (induction rows arbitrary: s)
  case Nil
  then show ?case by simp
next
  case (Cons r rows)
  obtain x f where r: "r = (x, f)" by (cases r)
  obtain hist where hist: "map_of (name_tracker s) x = Some hist"
    using Cons.prems(1) r by auto
  have absent: "map_of (registry s) x = None"
    using Cons.prems(2) r by simp
  let ?s' = "register_tool x M f s"
  have s': "?s' = s\<lparr>registry := AList.update (x @ ''_'' @ M) (new_entry f M x True) (registry s),
       name_tracker :=
         AList.update x (fst hist, snd hist @ [(M, x @ ''_'' @ M)]) (name_tracker s)\<rparr>"
    by (rule register_tool_tracked_absent [OF hist absent])
  have reg': "map_of (registry ?s') = (map_of (registry s))(x @ ''_'' @ M \<mapsto> new_entry f M x True)"
    by (simp add: s' AList.update_conv')
  have p1: "\<forall>y \<in> fst ` set rows. map_of (name_tracker ?s') y \<noteq> None"
    using Cons.prems(1) by (simp add: s' AList.update_conv')
  have p2: "\<forall>y \<in> fst ` set rows. map_of (registry ?s') y = None"
    using Cons.prems(2,3) r by (simp add: reg')
  have p3: "\<forall>a \<in> fst ` set rows. \<forall>y \<in> fst ` set rows. a \<noteq> y @ ''_'' @ M"
    using Cons.prems(3) by simp
  note ih = Cons.IH [OF p1 p2 p3]
  have res: "register_all M (r # rows) s = register_all M rows ?s'"
    using r by simp
  have a: "\<forall>k. k \<notin> (\<lambda>x. x @ ''_'' @ M) ` fst ` set (r # rows) \<longrightarrow>
            map_of (registry (register_all M (r # rows) s)) k = map_of (registry s) k"
    unfolding res using ih r by (simp add: reg')
  have b: "\<forall>k \<in> (\<lambda>x. x @ ''_'' @ M) ` fst ` set (r # rows).
            \<exists>e. map_of (registry (register_all M (r # rows) s)) k = Some e \<and> source_module e = M"
  proof
    fix k
    assume k: "k \<in> (\<lambda>x. x @ ''_'' @ M) ` fst ` set (r # rows)"
    show "\<exists>e. map_of (registry (register_all M (r # rows) s)) k = Some e \<and> source_module e = M"
    proof (cases "k \<in> (\<lambda>x. x @ ''_'' @ M) ` fst ` set rows")
      case True
      then show ?thesis unfolding res using ih by blast
    next
      case False
      then have "k = x @ ''_'' @ M"
        using k r by auto
      moreover have "map_of (registry (register_all M rows ?s')) k = map_of (registry ?s') k"
        using ih False by blast
      ultimately show ?thesis
        unfolding res by (simp add: reg' new_entry_def)
    qed
  qed
  have c: "distinct (map fst (registry s)) \<longrightarrow>
            distinct (map fst (registry (register_all M (r # rows) s)))"
    unfolding res using ih by (simp add: s' AList.distinct_update)
  show ?case using a b c by blast
qed

lemma map_of_filter_keys:
  "map_of (filter (\<lambda>(k, e). k \<notin> K) reg) k = (if k \<in> K then None else map_of reg k)"
  by (induction reg) auto

lemma tools_of_map_of:
  assumes "distinct (map fst reg)"
  shows "tools_of M reg = {k. \<exists>e. map_of reg k = Some e \<and> source_module e = M}"
  using assms by (force simp: tools_of_def)

lemma tool_names_of_map_of:
  assumes "distinct (map fst reg)"
  shows "tool_names_of M reg = {original_name e |k e. map_of reg k = Some e \<and> source_module e = M}"
  using assms by (force simp: tool_names_of_def)

lemma image_minus_one:
  assumes "T = f ` (N - {d})" and "B = f ` N" and "inj f" and "d \<in> N"
  shows "T - B = {}" and "B - T = {f d}"
  using assms by (auto simp: inj_def)

lemma register_calls_Nil [simp]: "register_calls [] s = s"
  by (simp add: register_calls_def)

lemma register_calls_Cons [simp]:
  "register_calls ((x, m, f) # calls) s = register_calls calls (register_tool x m f s)"
  by (simp add: register_calls_def)












text \<open>The definitions that evaluating the model on a concrete input unfolds.\<close>

lemmas eval_defs = proxy_handler_init_def initial_state_def discover_def validate_one_def
  load_one_init_def fresh_import_def store_module_def register_all_def register_tool_def
  rename_first_def clean_list_def clean_list_reload_def islower_def is_lower_def is_upper_def
  startswith_def is_relative_to_def stem_def stem_of_name_def path_name_def new_entry_def
  Let_def reload_all_modules_def clear_state_def load_one_reload_def obtain_module_def
  reload_module_def reexecute_def find_module_file_def tools_of_def under_root_def
  claims_of_def registered_in_def

subsection \<open>Three modules, one name\<close>




subsection \<open>Dispatch\<close>

text \<open>
  C7. \<^verbatim>\<open>use_proxy_tool\<close> raises its own not-found error, carrying the list of the
  registry's keys, exactly when the tool id is not a key of the registry. For a key it
  calls the bound object with the keyword arguments and returns what the call returns
  or the exception the call raises, unchanged. The handler is the same afterwards.
\<close>

theorem use_proxy_tool_dispatch:
  "(tool_id \<notin> fst ` set (registry s) \<longrightarrow>
      use_proxy_tool call s tool_id kwargs =
        (Inl (Not_found tool_id (map fst (registry s))), s))
   \<and> (\<forall>info. map_of (registry s) tool_id = Some info \<longrightarrow>
        use_proxy_tool call s tool_id kwargs =
          (case call (func info) kwargs of Inl e \<Rightarrow> Inl (Tool_raised e) | Inr r \<Rightarrow> Inr r, s))
   \<and> ((\<exists>keys. fst (use_proxy_tool call s tool_id kwargs) = Inl (Not_found tool_id keys))
        \<longleftrightarrow> tool_id \<notin> fst ` set (registry s))
   \<and> snd (use_proxy_tool call s tool_id kwargs) = s"
  by (auto simp: use_proxy_tool_def map_of_eq_None_iff dest: map_of_key
      split: option.splits sum.splits)

theorem use_proxy_tool_dispatch_witness:
  "''nope'' \<notin> fst ` set (registry demo_handler)
   \<and> use_proxy_tool demo_call demo_handler ''nope'' [(''x'', 1)] =
       (Inl (Not_found ''nope'' [''foo'']), demo_handler)
   \<and> map_of (registry demo_handler) ''foo'' =
       Some (new_entry (PyObj 3 None True) ''m'' ''foo'' False)
   \<and> use_proxy_tool demo_call demo_handler ''foo'' [(''x'', 1)] = (Inr 4, demo_handler)
   \<and> use_proxy_tool demo_call demo_handler ''foo'' [] =
       (Inl (Tool_raised (Exn ''TypeError'' ''missing argument'')), demo_handler)"
proof -
  have a: "''nope'' \<notin> fst ` set (registry demo_handler)"
    by (simp add: demo_handler_def)
  have b: "map_of (registry demo_handler) ''foo'' =
             Some (new_entry (PyObj 3 None True) ''m'' ''foo'' False)"
    by (simp add: demo_handler_def)
  have c: "demo_call (func (new_entry (PyObj 3 None True) ''m'' ''foo'' False)) [(''x'', 1)]
             = Inr 4"
    by (simp add: demo_call_def new_entry_def)
  have d: "demo_call (func (new_entry (PyObj 3 None True) ''m'' ''foo'' False)) []
             = Inl (Exn ''TypeError'' ''missing argument'')"
    by (simp add: demo_call_def new_entry_def)
  have e: "map fst (registry demo_handler) = [''foo'']"
    by (simp add: demo_handler_def)
  show ?thesis
    using a b c d e
      use_proxy_tool_dispatch [of "''nope''" demo_handler demo_call "[(''x'', 1)]"]
      use_proxy_tool_dispatch [of "''foo''" demo_handler demo_call "[(''x'', 1)]"]
      use_proxy_tool_dispatch [of "''foo''" demo_handler demo_call "[]"]
    by simp
qed


subsection \<open>The extraction filter\<close>

text \<open>
  C5, as amended. A round of the startup loop and a round of the full reload loop that
  obtain a module register exactly the names of its table that contain no double
  underscore, are \<^verbatim>\<open>islower\<close> and do not start with an underscore; whether the
  bound object is callable plays no part. A successful partial reload registers every such
  name, and registers only names of the table that contain no double underscore and are
  \<^verbatim>\<open>islower\<close>.
\<close>

theorem registered_names_by_filter:
  "(fresh_import w (stem p) p s = (Module tmod, s1) \<longrightarrow>
      (\<forall>x. registered_in s (load_one_init w s p) x \<longleftrightarrow>
           x \<in> fst ` set tmod \<and> \<not> py_in ''__'' x \<and> islower x \<and> \<not> startswith x ''_''))
   \<and> (obtain_module w (stem p) p s = (Module tmod, s1) \<longrightarrow>
      (\<forall>x. registered_in s (snd (load_one_reload w s p)) x \<longleftrightarrow>
           x \<in> fst ` set tmod \<and> \<not> py_in ''__'' x \<and> islower x \<and> \<not> startswith x ''_''))
   \<and> (map_of (loaded_mods s) M = Some old \<and> reexecute w s M old = Inr tmod \<longrightarrow>
      (\<forall>x. (x \<in> fst ` set tmod \<and> \<not> py_in ''__'' x \<and> islower x \<and> \<not> startswith x ''_''
              \<longrightarrow> registered_in s (snd (reload_module w s M)) x)
         \<and> (registered_in s (snd (reload_module w s M)) x
              \<longrightarrow> x \<in> fst ` set tmod \<and> \<not> py_in ''__'' x \<and> islower x)))"
proof (intro conjI impI allI)
  fix x
  assume f: "fresh_import w (stem p) p s = (Module tmod, s1)"
  then have "name_tracker s1 = name_tracker s"
    using fresh_import_tracker [of w "stem p" p s] by simp
  moreover have "load_one_init w s p = store_module (stem p) tmod s1"
    using f by (simp add: load_one_init_def)
  ultimately show "registered_in s (load_one_init w s p) x \<longleftrightarrow>
      x \<in> fst ` set tmod \<and> \<not> py_in ''__'' x \<and> islower x \<and> \<not> startswith x ''_''"
    by (simp add: registered_in_store_module fst_clean_list)
next
  fix x
  assume f: "obtain_module w (stem p) p s = (Module tmod, s1)"
  then have "name_tracker s1 = name_tracker s"
    using obtain_module_tracker [of w "stem p" p s] by simp
  moreover have "snd (load_one_reload w s p) = store_module (stem p) tmod s1"
    using f by (simp add: load_one_reload_def)
  ultimately show "registered_in s (snd (load_one_reload w s p)) x \<longleftrightarrow>
      x \<in> fst ` set tmod \<and> \<not> py_in ''__'' x \<and> islower x \<and> \<not> startswith x ''_''"
    by (simp add: registered_in_store_module fst_clean_list)
next
  fix x
  assume a: "map_of (loaded_mods s) M = Some old \<and> reexecute w s M old = Inr tmod"
    and b: "x \<in> fst ` set tmod \<and> \<not> py_in ''__'' x \<and> islower x \<and> \<not> startswith x ''_''"
  then have "x \<in> fst ` set (clean_list_reload tmod)"
    by (simp add: fst_clean_list_reload)
  then show "registered_in s (snd (reload_module w s M)) x"
    using a by (simp add: registered_in_def reload_module_claims count_list_pos)
next
  fix x
  assume a: "map_of (loaded_mods s) M = Some old \<and> reexecute w s M old = Inr tmod"
    and b: "registered_in s (snd (reload_module w s M)) x"
  then have "x \<in> fst ` set (clean_list_reload tmod)"
    by (simp add: registered_in_def reload_module_claims count_list_pos)
  then show "x \<in> fst ` set tmod" "\<not> py_in ''__'' x" "islower x"
    by (simp_all add: fst_clean_list_reload)
qed

theorem registered_names_by_filter_witness:
  "fresh_import broken_world (stem [''srv'', ''modules'', ''m.py'']) [''srv'', ''modules'', ''m.py'']
     demo_handler = (Module demo_table, demo_handler)
   \<and> registered_in demo_handler
        (load_one_init broken_world demo_handler [''srv'', ''modules'', ''m.py'']) ''bar''
   \<and> registered_in demo_handler
        (load_one_init broken_world demo_handler [''srv'', ''modules'', ''m.py'']) ''limit''
   \<and> \<not> registered_in demo_handler
        (load_one_init broken_world demo_handler [''srv'', ''modules'', ''m.py'']) ''_hid''
   \<and> \<not> registered_in demo_handler
        (load_one_init broken_world demo_handler [''srv'', ''modules'', ''m.py'']) ''__doc__''"
proof -
  have a: "fresh_import broken_world (stem [''srv'', ''modules'', ''m.py''])
      [''srv'', ''modules'', ''m.py''] demo_handler = (Module demo_table, demo_handler)"
    by (simp add: fresh_import_def broken_world_def stem_def stem_of_name_def path_name_def
        demo_handler_def)
  have b: "''bar'' \<in> fst ` set demo_table \<and> \<not> py_in ''__'' ''bar'' \<and> islower ''bar''
      \<and> \<not> startswith ''bar'' ''_''"
    by (simp add: demo_table_def islower_def is_lower_def is_upper_def startswith_def)
  have c: "''limit'' \<in> fst ` set demo_table \<and> \<not> py_in ''__'' ''limit'' \<and> islower ''limit''
      \<and> \<not> startswith ''limit'' ''_''"
    by (simp add: demo_table_def islower_def is_lower_def is_upper_def startswith_def)
  have d: "startswith ''_hid'' ''_''" "py_in ''__'' ''__doc__''"
    by (simp_all add: startswith_def)
  show ?thesis
    using a b c d
      registered_names_by_filter [of broken_world "[''srv'', ''modules'', ''m.py'']" demo_handler
        demo_table demo_handler]
    by simp
qed

text \<open>
  The claim as stated fails: the constant \<^verbatim>\<open>limit\<close> of \<open>demo_table\<close> is not
  callable, and startup registers it as a tool.
\<close>

theorem registered_names_counterexample:
  "exec_module broken_world ''m'' [''srv'', ''modules'', ''m.py''] = Inr demo_table
   \<and> map_of demo_table ''limit'' = Some (PyObj 4 None False)
   \<and> \<not> obj_callable (PyObj 4 None False)
   \<and> map_of (registry (proxy_handler_init broken_world [''srv''] {})) ''limit'' =
       Some (new_entry (PyObj 4 None False) ''m'' ''limit'' False)"
  by (simp add: eval_defs broken_world_def demo_table_def)

text \<open>
  C10. A name with a double underscore anywhere in it is registered by no round of the
  startup loop, by no round of the full reload loop and by no partial reload; after
  startup and after a full reload the name tracker does not know it and no registry row
  has it as its original name.
\<close>

theorem double_underscore_never_registered:
  assumes "py_in ''__'' x"
  shows "\<not> registered_in s (load_one_init w s p) x
    \<and> \<not> registered_in s (snd (load_one_reload w s p)) x
    \<and> \<not> registered_in s (snd (reload_module w s M)) x
    \<and> map_of (name_tracker (proxy_handler_init w base sysmods)) x = None
    \<and> (\<forall>(k, e) \<in> set (registry (proxy_handler_init w base sysmods)). original_name e \<noteq> x)
    \<and> map_of (name_tracker (snd (reload_all_modules w s))) x = None
    \<and> (\<forall>(k, e) \<in> set (registry (snd (reload_all_modules w s))). original_name e \<noteq> x)"
proof (intro conjI)
  show "\<not> registered_in s (load_one_init w s p) x"
    using loads_claims [OF load_one_init_loads assms]
    by (simp add: registered_in_def)
  show "\<not> registered_in s (snd (load_one_reload w s p)) x"
    using loads_claims [OF load_one_reload_loads assms]
    by (simp add: registered_in_def)
  show "\<not> registered_in s (snd (reload_module w s M)) x"
  proof (cases "map_of (loaded_mods s) M")
    case None
    then show ?thesis by (simp add: reload_module_def registered_in_def)
  next
    case (Some old)
    show ?thesis
    proof (cases "reexecute w s M old")
      case (Inl e)
      then show ?thesis
        using Some
        by (simp add: reload_module_def registered_in_def Let_def split: interrupted.splits)
    next
      case (Inr tmod)
      have "count_list (map fst (clean_list_reload tmod)) x = 0"
        using clean_list_reload_no_dunder [OF assms, of tmod] by (simp add: count_list_0_iff)
      then show ?thesis
        using reload_module_claims [OF Some Inr, of x] by (simp add: registered_in_def)
    qed
  qed
  show "map_of (name_tracker (proxy_handler_init w base sysmods)) x = None"
    by (rule loads_no_dunder(1) [OF init_loads assms]) simp_all
  show "\<forall>(k, e) \<in> set (registry (proxy_handler_init w base sysmods)). original_name e \<noteq> x"
    by (rule loads_no_dunder(2) [OF init_loads assms]) simp_all
  show "map_of (name_tracker (snd (reload_all_modules w s))) x = None"
    by (rule loads_no_dunder(1) [OF reload_all_loads assms]) simp_all
  show "\<forall>(k, e) \<in> set (registry (snd (reload_all_modules w s))). original_name e \<noteq> x"
    by (rule loads_no_dunder(2) [OF reload_all_loads assms]) simp_all
qed

theorem double_underscore_never_registered_witness:
  "py_in ''__'' ''my__tool''
   \<and> map_of demo_table ''my__tool'' = Some (PyObj 5 None True)
   \<and> \<not> registered_in demo_handler
        (load_one_init broken_world demo_handler [''srv'', ''modules'', ''m.py'']) ''my__tool''
   \<and> map_of (name_tracker (proxy_handler_init broken_world [''srv''] {})) ''my__tool'' = None"
proof -
  have a: "py_in ''__'' ''my__tool''" by simp
  have b: "map_of demo_table ''my__tool'' = Some (PyObj 5 None True)"
    by (simp add: demo_table_def)
  show ?thesis
    using a b double_underscore_never_registered [OF a, of demo_handler broken_world
        "[''srv'', ''modules'', ''m.py'']" "''m''" "[''srv'']" "{}"]
    by simp
qed

subsection \<open>The reserved name\<close>

text \<open>
  C9, as amended. A candidate whose resolved path lies under a valid directory and has
  the stem \<^verbatim>\<open>toolset\<close> is passed over: it is not accepted, no row of the rejection
  log names it, and no module \<^verbatim>\<open>toolset\<close> is loaded. This holds after a full reload,
  and after startup when resolving a resolved path changes nothing (the startup loop logs
  import errors under the resolved path).
\<close>

theorem toolset_skipped_under_roots:
  "toolset_skipped w (snd (reload_all_modules w s))
   \<and> ((\<forall>q. resolve w (resolve w q) = resolve w q) \<longrightarrow>
        toolset_skipped w (proxy_handler_init w base sysmods))"
proof (intro conjI impI)
  show "toolset_skipped w (snd (reload_all_modules w s))"
    by (rule toolset_skipped_after_discovery [OF reload_all_loads]) simp_all
next
  assume idem: "\<forall>q. resolve w (resolve w q) = resolve w q"
  show "toolset_skipped w (proxy_handler_init w base sysmods)"
  proof (rule toolset_skipped_after_discovery [OF init_loads])
    fix m r
    assume "(m, r) \<in> import_errors w (set (okmods (discover w (initial_state w base sysmods))))"
    then have "m \<in> set (okmods (discover w (initial_state w base sysmods)))"
      by (simp add: import_errors_def)
    then obtain m' where "m = resolve w m'" "stem (resolve w m') \<noteq> ''toolset''"
      by (auto simp: discover_eq accepted_def)
    then show "stem (resolve w m) \<noteq> ''toolset''"
      using idem by simp
  qed simp_all
qed

theorem toolset_skipped_under_roots_witness:
  "(\<forall>q. resolve toolset_world (resolve toolset_world q) = resolve toolset_world q)
   \<and> [''srv'', ''modules'', ''toolset.py'']
       \<in> set (raw_modules (proxy_handler_init toolset_world [''srv''] {}))
   \<and> under_root (valid_dirs (proxy_handler_init toolset_world [''srv''] {}))
         (resolve toolset_world [''srv'', ''modules'', ''toolset.py''])
   \<and> stem (resolve toolset_world [''srv'', ''modules'', ''toolset.py'']) = ''toolset''
   \<and> resolve toolset_world [''srv'', ''modules'', ''toolset.py'']
       \<notin> set (okmods (proxy_handler_init toolset_world [''srv''] {}))
   \<and> ([''srv'', ''modules'', ''toolset.py''], ''syntax_error'')
       \<notin> set (rejected_modules (proxy_handler_init toolset_world [''srv''] {}))
   \<and> ''toolset'' \<notin> fst ` set (loaded_mods (proxy_handler_init toolset_world [''srv''] {}))"
proof -
  have i: "\<forall>q. resolve toolset_world (resolve toolset_world q) = resolve toolset_world q"
    by (simp add: toolset_world_def)
  have a: "[''srv'', ''modules'', ''toolset.py'']
      \<in> set (raw_modules (proxy_handler_init toolset_world [''srv''] {}))"
    by (simp add: eval_defs toolset_world_def)
  have b: "under_root (valid_dirs (proxy_handler_init toolset_world [''srv''] {}))
         (resolve toolset_world [''srv'', ''modules'', ''toolset.py''])"
    by (simp add: eval_defs toolset_world_def)
  have c: "stem (resolve toolset_world [''srv'', ''modules'', ''toolset.py'']) = ''toolset''"
    by (simp add: eval_defs toolset_world_def)
  have "toolset_skipped toolset_world (proxy_handler_init toolset_world [''srv''] {})"
    using i toolset_skipped_under_roots [of toolset_world demo_handler "[''srv'']" "{}"]
    by blast
  then show ?thesis
    using i a b c unfolding toolset_skipped_def by blast
qed

text \<open>
  The claim as stated fails: the link \<^verbatim>\<open>toolset.py\<close> of \<open>link_world\<close> resolves to
  a file with the stem \<^verbatim>\<open>toolset\<close> outside the module directories, and startup
  records it in the rejection log.
\<close>

theorem toolset_link_counterexample:
  "glob_py link_world [''srv'', ''modules''] = [[''srv'', ''modules'', ''toolset.py'']]
   \<and> stem (resolve link_world [''srv'', ''modules'', ''toolset.py'']) = ''toolset''
   \<and> rejected_modules (proxy_handler_init link_world [''srv''] {}) =
       [([''srv'', ''modules'', ''toolset.py''], ''path_traversal_attempt'')]"
  by (simp add: eval_defs link_world_def)

subsection \<open>Import errors in the two batch loops\<close>

text \<open>
  C3, at a failing input. In \<open>broken_world\<close> the candidate \<^verbatim>\<open>bad.py\<close> raises when
  executed and \<^verbatim>\<open>m.py\<close> comes after it. The full reload lets the exception out: it
  records nothing in the rejection log and never reaches \<^verbatim>\<open>m.py\<close>. Startup on the
  same directory records the import error and loads \<^verbatim>\<open>m\<close>.
\<close>

theorem reload_all_propagates_import_error:
  "fst (reload_all_modules broken_world demo_handler) = Inl (Exn ''ValueError'' ''boom'')
   \<and> rejected_modules (snd (reload_all_modules broken_world demo_handler)) = []
   \<and> loaded_mods (snd (reload_all_modules broken_world demo_handler)) = []
   \<and> rejected_modules (proxy_handler_init broken_world [''srv''] {}) =
       [([''srv'', ''modules'', ''bad.py''], ''import_error: boom'')]
   \<and> map fst (loaded_mods (proxy_handler_init broken_world [''srv''] {})) = [''m'']"
  by (simp add: eval_defs broken_world_def demo_table_def demo_handler_def)

subsection \<open>The full reload obtains loaded modules by name\<close>

text \<open>
  C6, at a failing input. In \<open>foreign_world\<close> the only candidate is
  \<^verbatim>\<open>/srv/modules/colorsys.py\<close>, which passes the path check. The name is in
  \<^verbatim>\<open>sys.modules\<close>, so the full reload asks \<^verbatim>\<open>importlib.reload\<close>, which executes
  the file \<^verbatim>\<open>/usr/lib/python3/colorsys.py\<close>: it lies under no valid directory, and the
  module stored under \<^verbatim>\<open>colorsys\<close> is what that file made, not what the accepted
  file defines. Startup on the same directory loads the accepted file.
\<close>

theorem full_reload_loads_foreign_file:
  "importlib_reload foreign_world ''colorsys'' =
       Inr ([''usr'', ''lib'', ''python3'', ''colorsys.py''],
            [(''gone'', PyObj 21 None True), (''rgb_to_hls'', PyObj 22 None True)])
   \<and> \<not> under_root (valid_dirs foreign_handler) [''usr'', ''lib'', ''python3'', ''colorsys.py'']
   \<and> okmods (snd (reload_all_modules foreign_world foreign_handler)) =
       [[''srv'', ''modules'', ''colorsys.py'']]
   \<and> exec_module foreign_world ''colorsys'' [''srv'', ''modules'', ''colorsys.py''] =
       Inr [(''mine'', PyObj 20 None True)]
   \<and> loaded_mods (snd (reload_all_modules foreign_world foreign_handler)) =
       [(''colorsys'', [(''gone'', PyObj 21 None True), (''rgb_to_hls'', PyObj 22 None True)])]
   \<and> loaded_mods (proxy_handler_init foreign_world [''srv''] {''colorsys''}) =
       [(''colorsys'', [(''mine'', PyObj 20 None True)])]"
  by (simp add: eval_defs foreign_world_def foreign_handler_def)

text \<open>
  C8, at a failing input. The same run, seen from the registry. Before the reload the
  handler has the tool \<^verbatim>\<open>gone\<close> of an earlier version of \<^verbatim>\<open>colorsys.py\<close>; the
  file now defines only \<^verbatim>\<open>mine\<close>. The reload executes inside the module object of
  \<^verbatim>\<open>sys.modules\<close>, where the binding \<^verbatim>\<open>gone\<close> survives: after the full reload
  the registry holds \<^verbatim>\<open>gone\<close>, which no present file defines, and \<^verbatim>\<open>rgb_to_hls\<close>
  of the library's file, and not \<^verbatim>\<open>mine\<close>.
\<close>

theorem full_reload_keeps_old_binding:
  "map fst (registry foreign_handler) = [''gone'']
   \<and> check_source foreign_world [''srv'', ''modules'', ''colorsys.py''] = Parsed
   \<and> exec_module foreign_world ''colorsys'' [''srv'', ''modules'', ''colorsys.py''] =
       Inr [(''mine'', PyObj 20 None True)]
   \<and> fst (reload_all_modules foreign_world foreign_handler) = Inr (2, 1)
   \<and> map (\<lambda>(tool_id, info). (tool_id, source_module info))
         (registry (snd (reload_all_modules foreign_world foreign_handler))) =
       [(''gone'', ''colorsys''), (''rgb_to_hls'', ''colorsys'')]"
  by (simp add: eval_defs foreign_world_def foreign_handler_def)

subsection \<open>A partial reload with one callable fewer\<close>

text \<open>
  C4, as amended. Let \<open>M\<close> be loaded and \<open>settled\<close>: every tool of \<open>M\<close> sits under
  its suffixed key, is known to the name tracker and has no row under its bare name. If a
  successful partial reload yields the previous names of \<open>M\<close> without \<open>d\<close>, then the
  removed set is exactly the key \<open>d_M\<close>, the added set is empty, and the rows of the
  other modules are the same before and after, key and content.
\<close>

theorem reload_minus_one_when_suffixed:
  assumes loaded: "map_of (loaded_mods s) M = Some old"
    and exec: "reexecute w s M old = Inr tmod"
    and settled: "settled M s"
    and d: "d \<in> tool_names_of M (registry s)"
    and minus: "fst ` set (clean_list_reload tmod) = tool_names_of M (registry s) - {d}"
  shows "fst (reload_module w s M) =
           Reload_ok M {} {d @ ''_'' @ M}
             (Some ''Consider reload_all() to rebuild collision detection'')
       \<and> (\<forall>(k, e) \<in> set (registry s). source_module e \<noteq> M \<longrightarrow>
             map_of (registry (snd (reload_module w s M))) k = Some e)
       \<and> (\<forall>(k, e) \<in> set (registry (snd (reload_module w s M))). source_module e \<noteq> M \<longrightarrow>
             (k, e) \<in> set (registry s))"
proof -
  let ?suf = "\<lambda>x. x @ ''_'' @ M"
  let ?N = "tool_names_of M (registry s)"
  let ?O = "tools_of M (registry s)"
  let ?rows = "clean_list_reload tmod"
  let ?s2 = "s\<lparr>loaded_mods := AList.update M tmod (loaded_mods s),
               registry := filter (\<lambda>(tool_id, info). tool_id \<notin> ?O) (registry s)\<rparr>"
  let ?s3 = "register_all M ?rows ?s2"
  have dist: "distinct (map fst (registry s))"
    using settled by (simp add: settled_def)
  have rowsM: "\<And>k e. map_of (registry s) k = Some e \<Longrightarrow> source_module e = M \<Longrightarrow>
      k = ?suf (original_name e) \<and> map_of (name_tracker s) (original_name e) \<noteq> None
      \<and> map_of (registry s) (original_name e) = None"
    using settled dist unfolding settled_def by (auto dest!: map_of_SomeD)
  have O: "?O = {k. \<exists>e. map_of (registry s) k = Some e \<and> source_module e = M}"
    by (rule tools_of_map_of [OF dist])
  have N: "?N = {original_name e |k e. map_of (registry s) k = Some e \<and> source_module e = M}"
    by (rule tool_names_of_map_of [OF dist])
  have O_suf: "?O = ?suf ` ?N"
  proof (intro set_eqI iffI)
    fix k assume "k \<in> ?O"
    then obtain e where e: "map_of (registry s) k = Some e" "source_module e = M"
      unfolding O by blast
    then have "k = ?suf (original_name e)" "original_name e \<in> ?N"
      using rowsM unfolding N by blast+
    then show "k \<in> ?suf ` ?N" by blast
  next
    fix k assume "k \<in> ?suf ` ?N"
    then obtain k' e where e: "map_of (registry s) k' = Some e" "source_module e = M"
      "k = ?suf (original_name e)"
      unfolding N by blast
    then have "k' = k" using rowsM by blast
    then show "k \<in> ?O" unfolding O using e by blast
  qed
  have names: "fst ` set ?rows \<subseteq> ?N"
    using minus by auto
  have inN: "\<And>x. x \<in> ?N \<Longrightarrow>
      \<exists>k e. map_of (registry s) k = Some e \<and> source_module e = M \<and> x = original_name e"
    unfolding N by blast
  have tracked: "map_of (name_tracker s) x \<noteq> None" if xN: "x \<in> ?N" for x
  proof -
    obtain k e where "map_of (registry s) k = Some e" "source_module e = M" "x = original_name e"
      using inN [OF xN] by blast
    then show ?thesis using rowsM [of k e] by simp
  qed
  have bare: "map_of (registry s) x = None" if xN: "x \<in> ?N" for x
  proof -
    obtain k e where "map_of (registry s) k = Some e" "source_module e = M" "x = original_name e"
      using inN [OF xN] by blast
    then show ?thesis using rowsM [of k e] by simp
  qed
  have reg2: "\<And>k. map_of (registry ?s2) k = (if k \<in> ?O then None else map_of (registry s) k)"
    by (simp add: map_of_filter_keys)
  have h1: "\<forall>x \<in> fst ` set ?rows. map_of (name_tracker ?s2) x \<noteq> None"
    using names tracked by auto
  have h2: "\<forall>x \<in> fst ` set ?rows. map_of (registry ?s2) x = None"
  proof
    fix x
    assume "x \<in> fst ` set ?rows"
    then have "x \<in> ?N" using names by blast
    then have "map_of (registry s) x = None" by (rule bare)
    then show "map_of (registry ?s2) x = None"
      by (simp add: map_of_filter_keys)
  qed
  have h3: "\<forall>x \<in> fst ` set ?rows. \<forall>y \<in> fst ` set ?rows. x \<noteq> y @ ''_'' @ M"
  proof (intro ballI notI)
    fix x y
    assume x: "x \<in> fst ` set ?rows" and y: "y \<in> fst ` set ?rows" and e: "x = y @ ''_'' @ M"
    have "?suf y \<in> ?O"
      using y names O_suf by blast
    then have "map_of (registry s) (?suf y) \<noteq> None"
      unfolding O by auto
    moreover have "x \<in> ?N"
      using x names by (rule rev_subsetD)
    then have "map_of (registry s) x = None"
      by (rule bare)
    ultimately show False using e by simp
  qed
  note ra = register_all_suffixed [OF h1 h2 h3]
  have ra1: "map_of (registry ?s3) k = map_of (registry ?s2) k"
    if "k \<notin> ?suf ` fst ` set ?rows" for k
    using ra that by blast
  have ra2: "\<exists>e. map_of (registry ?s3) k = Some e \<and> source_module e = M"
    if "k \<in> ?suf ` fst ` set ?rows" for k
    using ra that by blast
  have dist2: "distinct (map fst (registry ?s2))"
    using dist by (simp add: distinct_map_filter)
  have dist3: "distinct (map fst (registry ?s3))"
    using ra dist2 by blast
  have same: "map_of (registry ?s3) k = (if k \<in> ?O then None else map_of (registry s) k)"
    if "k \<notin> ?suf ` fst ` set ?rows" for k
    unfolding ra1 [OF that] by (simp add: map_of_filter_keys)
  have T3: "tools_of M (registry ?s3) =
      {k. \<exists>e. map_of (registry ?s3) k = Some e \<and> source_module e = M}"
    by (rule tools_of_map_of [OF dist3])
  have new: "tools_of M (registry ?s3) = ?suf ` fst ` set ?rows"
  proof (rule set_eqI)
    fix k
    show "k \<in> tools_of M (registry ?s3) \<longleftrightarrow> k \<in> ?suf ` fst ` set ?rows"
    proof (cases "k \<in> ?suf ` fst ` set ?rows")
      case True
      then show ?thesis
        unfolding T3 using ra2 [OF True] by blast
    next
      case False
      have "\<not> (\<exists>e. map_of (registry ?s3) k = Some e \<and> source_module e = M)"
        unfolding same [OF False] using O by auto
      then show ?thesis
        unfolding T3 using False by blast
    qed
  qed
  have new': "tools_of M (registry ?s3) = ?suf ` (?N - {d})"
    unfolding new minus ..
  have inj: "inj ?suf"
    by (simp add: inj_def)
  have added: "tools_of M (registry ?s3) - ?O = {}"
    by (rule image_minus_one(1) [OF new' O_suf inj d])
  have removed: "?O - tools_of M (registry ?s3) = {?suf d}"
    by (rule image_minus_one(2) [OF new' O_suf inj d])
  have res: "reload_module w s M =
      (Reload_ok M (tools_of M (registry ?s3) - ?O) (?O - tools_of M (registry ?s3))
         (if tools_of M (registry ?s3) - ?O \<noteq> {} \<or> ?O - tools_of M (registry ?s3) \<noteq> {}
          then Some ''Consider reload_all() to rebuild collision detection'' else None), ?s3)"
    using loaded exec by (simp add: reload_module_def Let_def)
  have first: "fst (reload_module w s M) =
           Reload_ok M {} {d @ ''_'' @ M}
             (Some ''Consider reload_all() to rebuild collision detection'')"
    unfolding res fst_conv added removed by simp
  have st: "snd (reload_module w s M) = ?s3"
    unfolding res by simp
  have others: "\<forall>(k, e) \<in> set (registry s). source_module e \<noteq> M \<longrightarrow>
             map_of (registry ?s3) k = Some e"
  proof (intro ballI, clarify)
    fix k e
    assume in_reg: "(k, e) \<in> set (registry s)" and src: "source_module e \<noteq> M"
    have m: "map_of (registry s) k = Some e"
      using in_reg dist by simp
    then have notO: "k \<notin> ?O"
      unfolding O using src by auto
    then have "k \<notin> ?suf ` fst ` set ?rows"
      using names O_suf by blast
    then show "map_of (registry ?s3) k = Some e"
      using same notO m by simp
  qed
  have no_new: "\<forall>(k, e) \<in> set (registry ?s3). source_module e \<noteq> M \<longrightarrow>
             (k, e) \<in> set (registry s)"
  proof (intro ballI, clarify)
    fix k e
    assume in_reg: "(k, e) \<in> set (registry ?s3)" and src: "source_module e \<noteq> M"
    have m: "map_of (registry ?s3) k = Some e"
      using in_reg dist3 by simp
    have "k \<notin> ?suf ` fst ` set ?rows"
    proof
      assume "k \<in> ?suf ` fst ` set ?rows"
      then obtain e' where "map_of (registry ?s3) k = Some e'" "source_module e' = M"
        using ra2 by blast
      then show False using m src by simp
    qed
    then have "map_of (registry s) k = Some e"
      using same m by (simp split: if_splits)
    then show "(k, e) \<in> set (registry s)"
      by (rule map_of_SomeD)
  qed
  show ?thesis
    unfolding st using first others no_new by blast
qed

theorem reload_minus_one_when_suffixed_witness:
  "settled_handler =
     snd (reload_module (plain_world\<lparr>exec_module_in := (\<lambda>n p old. Inr old)\<rparr>)
            (proxy_handler_init plain_world [''srv''] {}) ''m'')
   \<and> map_of (loaded_mods settled_handler) ''m'' =
       Some [(''bar'', PyObj 2 None True), (''foo'', PyObj 3 None True)]
   \<and> reexecute plain_world settled_handler ''m''
         [(''bar'', PyObj 2 None True), (''foo'', PyObj 3 None True)]
       = Inr [(''foo'', PyObj 6 None True)]
   \<and> settled ''m'' settled_handler
   \<and> ''bar'' \<in> tool_names_of ''m'' (registry settled_handler)
   \<and> fst ` set (clean_list_reload [(''foo'', PyObj 6 None True)]) =
       tool_names_of ''m'' (registry settled_handler) - {''bar''}
   \<and> fst (reload_module plain_world settled_handler ''m'') =
       Reload_ok ''m'' {} {''bar_m''}
         (Some ''Consider reload_all() to rebuild collision detection'')"
proof -
  have r: "settled_handler =
     snd (reload_module (plain_world\<lparr>exec_module_in := (\<lambda>n p old. Inr old)\<rparr>)
            (proxy_handler_init plain_world [''srv''] {}) ''m'')"
    by (simp add: eval_defs plain_world_def settled_handler_def
        del: set_filter image_set flip: set_map)
  have a: "map_of (loaded_mods settled_handler) ''m'' =
       Some [(''bar'', PyObj 2 None True), (''foo'', PyObj 3 None True)]"
    by (simp add: settled_handler_def)
  have b: "reexecute plain_world settled_handler ''m''
         [(''bar'', PyObj 2 None True), (''foo'', PyObj 3 None True)]
       = Inr [(''foo'', PyObj 6 None True)]"
    by (simp add: reexecute_def find_module_file_def plain_world_def settled_handler_def)
  have c: "settled ''m'' settled_handler"
    by code_simp
  have d: "''bar'' \<in> tool_names_of ''m'' (registry settled_handler)"
    by code_simp
  have e: "fst ` set (clean_list_reload [(''foo'', PyObj 6 None True)]) =
       tool_names_of ''m'' (registry settled_handler) - {''bar''}"
    by code_simp
  have f: "''bar'' @ ''_'' @ ''m'' = ''bar_m''"
    by simp
  show ?thesis
    using r a b c d e reload_minus_one_when_suffixed [OF a b c d e, THEN conjunct1]
    unfolding f by simp
qed

text \<open>
  The claim as stated fails: after startup on \<open>plain_world\<close> the tools of \<^verbatim>\<open>m\<close> hold
  their bare keys. The reload that drops \<^verbatim>\<open>bar\<close> finds \<^verbatim>\<open>foo\<close> in the name
  tracker, stores it under \<^verbatim>\<open>foo_m\<close>, and reports \<^verbatim>\<open>foo_m\<close> as added and both
  \<^verbatim>\<open>bar\<close> and \<^verbatim>\<open>foo\<close> as removed.
\<close>

theorem reload_minus_one_counterexample:
  "map_of (loaded_mods (proxy_handler_init plain_world [''srv''] {})) ''m'' =
       Some [(''bar'', PyObj 2 None True), (''foo'', PyObj 3 None True)]
   \<and> reexecute plain_world (proxy_handler_init plain_world [''srv''] {}) ''m''
         [(''bar'', PyObj 2 None True), (''foo'', PyObj 3 None True)]
       = Inr [(''foo'', PyObj 6 None True)]
   \<and> tool_names_of ''m'' (registry (proxy_handler_init plain_world [''srv''] {})) =
       {''bar'', ''foo''}
   \<and> fst ` set (clean_list_reload [(''foo'', PyObj 6 None True)]) = {''bar'', ''foo''} - {''bar''}
   \<and> fst (reload_module plain_world (proxy_handler_init plain_world [''srv''] {}) ''m'') =
       Reload_ok ''m'' {''foo_m''} {''bar'', ''foo''}
         (Some ''Consider reload_all() to rebuild collision detection'')"
  by code_simp

subsection \<open>A partial reload that fails\<close>




end
